theory Spec2Isabelle
  imports Main "HOL-Library.Sublist"
begin

section \<open>JavaScript values\<close>

text \<open>
  The values the background agent handles: what \<^verbatim>\<open>response.json()\<close> parses, what
  \<^verbatim>\<open>chrome.storage.local\<close> holds, and \<^verbatim>\<open>undefined\<close>. Numbers are the integers (the
  program only tests them for zero, prints them and subtracts timestamps). An object is the
  list of its own properties in insertion order, keys distinct. \<open>Fn\<close> is a built-in function
  value: the only one the program can meet is \<^verbatim>\<open>String.prototype.link\<close>, read by
  \<^verbatim>\<open>data.link\<close> when \<^verbatim>\<open>data\<close> is a string.
\<close>

datatype jsval =
    Undefined
  | Null
  | Bool bool
  | Num int
  | Str string
  | Arr "jsval list"
  | Obj "(string \<times> jsval) list"
  | Fn string

text \<open>What a thrown value can be: the built-in errors and \<^verbatim>\<open>new Error(message)\<close>.\<close>

datatype error =
    TypeError
  | SyntaxError
  | NetworkFailure
  | Error string

text \<open>ToBoolean: \<^verbatim>\<open>!v\<close>, \<^verbatim>\<open>a && b\<close>, \<^verbatim>\<open>a || b\<close> and \<^verbatim>\<open>if (v)\<close> test this.\<close>

fun truthy :: "jsval \<Rightarrow> bool" where
  "truthy Undefined = False"
| "truthy Null = False"
| "truthy (Bool b) = b"
| "truthy (Num n) = (n \<noteq> 0)"
| "truthy (Str s) = (s \<noteq> [])"
| "truthy (Arr xs) = True"
| "truthy (Obj kvs) = True"
| "truthy (Fn f) = True"

definition digit_char :: "nat \<Rightarrow> char" where
  "digit_char d = ''0123456789'' ! d"

function show_nat :: "nat \<Rightarrow> string" where
  "show_nat n = (if n < 10 then [digit_char n] else show_nat (n div 10) @ [digit_char (n mod 10)])"
  by pat_completeness auto
termination
  by (relation "measure (\<lambda>n. n)") auto

declare show_nat.simps [simp del]

definition show_int :: "int \<Rightarrow> string" where
  "show_int i = (if i < 0 then ''-'' @ show_nat (nat (- i)) else show_nat (nat i))"

fun join_comma :: "string list \<Rightarrow> string" where
  "join_comma [] = []"
| "join_comma [x] = x"
| "join_comma (x # y # ys) = x @ '','' @ join_comma (y # ys)"

text \<open>The first error in a list of results, or all the values.\<close>

fun collect :: "(error + 'a) list \<Rightarrow> error + 'a list" where
  "collect [] = Inr []"
| "collect (Inl err # rs) = Inl err"
| "collect (Inr x # rs) = (case collect rs of Inl err \<Rightarrow> Inl err | Inr xs \<Rightarrow> Inr (x # xs))"

definition max_safe_integer :: int where
  "max_safe_integer = 2 ^ 53"

text \<open>
  Number to string. An integer of magnitude up to \<open>2 ^ 53\<close> is printed in decimal. Beyond
  that JavaScript prints the shortest digits that identify the double, padded with zeros or
  in exponent form from \<open>10 ^ 21\<close> on: that text is the platform's, and is taken as the
  parameter \<open>big\<close>.
\<close>

definition number_to_string :: "(int \<Rightarrow> string) \<Rightarrow> int \<Rightarrow> string" where
  "number_to_string big n = (if \<bar>n\<bar> \<le> max_safe_integer then show_int n else big n)"

text \<open>
  ToString, as a template literal \<^verbatim>\<open>`${v}`\<close> applies it. It throws a TypeError on an
  object with an own property \<^verbatim>\<open>toString\<close>: a parsed or stored value is never callable, and
  \<^verbatim>\<open>valueOf\<close> then yields no primitive either. An array is joined with commas, its
  elements converted in turn. The text of a built-in function is the one Chrome prints.
\<close>

fun to_string :: "(int \<Rightarrow> string) \<Rightarrow> jsval \<Rightarrow> error + string" where
  "to_string big Undefined = Inr ''undefined''"
| "to_string big Null = Inr ''null''"
| "to_string big (Bool b) = Inr (if b then ''true'' else ''false'')"
| "to_string big (Num n) = Inr (number_to_string big n)"
| "to_string big (Str s) = Inr s"
| "to_string big (Arr xs) =
     (case collect (map (\<lambda>x. if x = Undefined \<or> x = Null then Inr [] else to_string big x) xs) of
        Inl err \<Rightarrow> Inl err
      | Inr ss \<Rightarrow> Inr (join_comma ss))"
| "to_string big (Obj kvs) =
     (if ''toString'' \<in> set (map fst kvs) then Inl TypeError else Inr ''[object Object]'')"
| "to_string big (Fn f) = Inr (''function '' @ f @ ''() { [native code] }'')"

text \<open>
  Property read \<^verbatim>\<open>v.k\<close>, for the names this program reads (\<^verbatim>\<open>baseUrl\<close>, \<^verbatim>\<open>link\<close>,
  \<^verbatim>\<open>token\<close>, \<^verbatim>\<open>node_id\<close>, \<^verbatim>\<open>ip\<close>, \<^verbatim>\<open>city\<close>, \<^verbatim>\<open>region\<close>, \<^verbatim>\<open>country_name\<close>): it
  throws a TypeError on \<^verbatim>\<open>null\<close> and \<^verbatim>\<open>undefined\<close>, finds an own property of an object,
  and of the inherited ones only \<^verbatim>\<open>link\<close> on a string carries one of these names.
\<close>

fun get_prop :: "jsval \<Rightarrow> string \<Rightarrow> error + jsval" where
  "get_prop Undefined k = Inl TypeError"
| "get_prop Null k = Inl TypeError"
| "get_prop (Obj kvs) k = Inr (case map_of kvs k of Some v \<Rightarrow> v | None \<Rightarrow> Undefined)"
| "get_prop (Str s) k = Inr (if k = ''link'' then Fn ''link'' else Undefined)"
| "get_prop v k = Inr Undefined"

text \<open>\<^verbatim>\<open>Object.keys(v)\<close>: own enumerable property names.\<close>

fun Object_keys :: "jsval \<Rightarrow> error + string list" where
  "Object_keys Undefined = Inl TypeError"
| "Object_keys Null = Inl TypeError"
| "Object_keys (Obj kvs) = Inr (map fst kvs)"
| "Object_keys (Arr xs) = Inr (map show_nat [0..<length xs])"
| "Object_keys (Str s) = Inr (map show_nat [0..<length s])"
| "Object_keys v = Inr []"

section \<open>The platform: network, timers, storage, console\<close>

text \<open>
  A response carries its status and its body as \<^verbatim>\<open>response.json()\<close> would parse it
  (\<open>None\<close>: the body is not JSON and \<^verbatim>\<open>json()\<close> rejects with a SyntaxError).
  \<^verbatim>\<open>response.ok\<close> is the Fetch standard's getter: the status is in the range 200 to 299.
\<close>

record response =
  status :: nat
  json_body :: "jsval option"

definition ok :: "response \<Rightarrow> bool" where
  "ok r = (200 \<le> status r \<and> status r \<le> 299)"

definition json :: "response \<Rightarrow> error + jsval" where
  "json r = (case json_body r of None \<Rightarrow> Inl SyntaxError | Some v \<Rightarrow> Inr v)"

text \<open>
  The second argument of \<^verbatim>\<open>fetch\<close>. \<open>body\<close> holds the value handed to
  \<^verbatim>\<open>JSON.stringify\<close>.
\<close>

record options =
  http_method :: "string option"
  headers :: "(string \<times> string) list"
  body :: "jsval option"
  mode :: "string option"

definition no_options :: options where
  "no_options = \<lparr>http_method = None, headers = [], body = None, mode = None\<rparr>"

datatype settled = Fulfilled response | Rejected error

text \<open>
  The world outside the program. The \<open>k\<close>-th call of \<^verbatim>\<open>fetch\<close> since the start, when it is
  awaited, settles after \<open>fst (net k url opts)\<close> milliseconds as \<open>snd (net k url opts)\<close>
  (an awaited request is taken to settle: the transport ends it). When the call is only
  raced against a timer, \<open>probe k url opts\<close> says when and how it settles, and \<open>None\<close> that
  it never does. \<open>big_number_text\<close> is the platform's printing of an integer beyond
  \<open>2 ^ 53\<close>.
\<close>

record env =
  net :: "nat \<Rightarrow> string \<Rightarrow> options \<Rightarrow> nat \<times> settled"
  probe :: "nat \<Rightarrow> string \<Rightarrow> options \<Rightarrow> (nat \<times> settled) option"
  big_number_text :: "int \<Rightarrow> string"

text \<open>A value, or a number, inside a template literal.\<close>

definition to_str :: "env \<Rightarrow> jsval \<Rightarrow> error + string" where
  "to_str e v = to_string (big_number_text e) v"

definition num_str :: "env \<Rightarrow> int \<Rightarrow> string" where
  "num_str e n = number_to_string (big_number_text e) n"

datatype level = LLog | LWarn | LError

text \<open>
  A callback given to \<^verbatim>\<open>setInterval\<close>: the heartbeat closure with the token it captured,
  or the base-URL refresh.
\<close>

datatype callback = HeartbeatTick jsval | RefreshTick

text \<open>What the program does to the platform, in order. A console event keeps the message
  (its first argument) and drops the logged objects.\<close>

datatype event =
    Fetch string options
  | SetTimeout nat
  | SetInterval nat callback
  | Console level string
  | StorageGet string
  | NotificationCreate string string
  | TabsCreate jsval

text \<open>
  The state: the module's two globals (\<^verbatim>\<open>baseUrl\<close>, \<^verbatim>\<open>notificationLinks\<close>), the value
  stored under \<^verbatim>\<open>token\<close> in \<^verbatim>\<open>chrome.storage.local\<close> (\<open>Undefined\<close> when absent), the
  interval timers installed, the clock \<^verbatim>\<open>Date.now()\<close> reads, the number of \<^verbatim>\<open>fetch\<close> calls
  made and the trace of events.
\<close>

record state =
  baseUrl :: jsval
  notificationLinks :: "string \<rightharpoonup> jsval"
  token_store :: jsval
  timers :: "(nat \<times> callback) list"
  now :: nat
  nfetch :: nat
  trace :: "event list"

definition emit :: "event \<Rightarrow> state \<Rightarrow> state" where
  "emit e s = s\<lparr>trace := trace s @ [e]\<rparr>"

definition console :: "level \<Rightarrow> string \<Rightarrow> state \<Rightarrow> state" where
  "console l msg s = emit (Console l msg) s"

text \<open>\<^verbatim>\<open>await fetch(url, opts)\<close>.\<close>

definition await_fetch :: "env \<Rightarrow> string \<Rightarrow> options \<Rightarrow> state \<Rightarrow> settled \<times> state" where
  "await_fetch e url opts s =
     (snd (net e (nfetch s) url opts),
      (emit (Fetch url opts) s)\<lparr>nfetch := Suc (nfetch s),
                                now := now s + fst (net e (nfetch s) url opts)\<rparr>)"

text \<open>\<^verbatim>\<open>await new Promise(resolve => setTimeout(resolve, delay))\<close>.\<close>

definition sleep :: "nat \<Rightarrow> state \<Rightarrow> state" where
  "sleep d s = (emit (SetTimeout d) s)\<lparr>now := now s + d\<rparr>"

section \<open>fetchWithRetry\<close>

text \<open>
  \<^verbatim>\<open>fetchWithRetry(url, options = {}, retries = 3, delay = 1000)\<close>: \<open>retries\<close> is a number
  of attempts and \<open>delay\<close> a number of milliseconds, both natural numbers; the callers in
  this program leave the defaults, which the embedding passes explicitly
  (\<open>no_options\<close>, 3, 1000). The loop variable \<open>attempt\<close> is the argument of the recursion.
\<close>

text \<open>The body of the \<^verbatim>\<open>try\<close> block: one attempt, which throws on a rejected request and
  on a response that is not \<^verbatim>\<open>ok\<close>.\<close>

definition attempt_once :: "env \<Rightarrow> string \<Rightarrow> options \<Rightarrow> state \<Rightarrow> (error + response) \<times> state" where
  "attempt_once e url opts s =
     (case await_fetch e url opts s of
        (Rejected err, s1) \<Rightarrow> (Inl err, s1)
      | (Fulfilled r, s1) \<Rightarrow>
          if \<not> ok r then (Inl (Error (''Request failed with status '' @ show_nat (status r))), s1)
          else (Inr r, s1))"

definition attempt_failed_msg :: "nat \<Rightarrow> string" where
  "attempt_failed_msg attempt = ''Attempt '' @ show_nat (attempt + 1) @ '' failed:''"

function fetchWithRetry_loop ::
  "env \<Rightarrow> string \<Rightarrow> options \<Rightarrow> nat \<Rightarrow> nat \<Rightarrow> nat \<Rightarrow> state \<Rightarrow> (error + response) \<times> state" where
  "fetchWithRetry_loop e url opts retries delay attempt s =
     (if attempt < retries then
        (case attempt_once e url opts s of
           (Inr r, s1) \<Rightarrow> (Inr r, s1)
         | (Inl err, s1) \<Rightarrow>
             let s2 = console LError (attempt_failed_msg attempt) s1;
                 s3 = (if attempt < retries - 1 then sleep delay s2 else s2)
             in fetchWithRetry_loop e url opts retries delay (attempt + 1) s3)
      else (Inl (Error ''All retry attempts failed''), s))"
  by pat_completeness auto
termination
  by (relation "measure (\<lambda>(e, url, opts, retries, delay, attempt, s). retries - attempt)") auto

declare fetchWithRetry_loop.simps [simp del]

definition fetchWithRetry ::
  "env \<Rightarrow> string \<Rightarrow> options \<Rightarrow> nat \<Rightarrow> nat \<Rightarrow> state \<Rightarrow> (error + response) \<times> state" where
  "fetchWithRetry e url opts retries delay s = fetchWithRetry_loop e url opts retries delay 0 s"

section \<open>utils.js\<close>

definition fallback_url :: jsval where
  "fallback_url = Str ''https://api.pipecdn.app''"

text \<open>\<^verbatim>\<open>fetchBaseUrl\<close> of utils.js: a single plain \<^verbatim>\<open>fetch\<close>, and \<^verbatim>\<open>data.baseUrl\<close> returned
  as it is.\<close>

definition utils_fetchBaseUrl :: "env \<Rightarrow> state \<Rightarrow> jsval \<times> state" where
  "utils_fetchBaseUrl e s =
     (case await_fetch e ''https://new-backend-api.com/getBaseUrl'' no_options s of
        (Rejected err, s1) \<Rightarrow> (fallback_url, console LError ''Error fetching base URL:'' s1)
      | (Fulfilled r, s1) \<Rightarrow>
          if \<not> ok r then (fallback_url, console LError ''Error fetching base URL:'' s1)
          else (case json r of
                  Inl err \<Rightarrow> (fallback_url, console LError ''Error fetching base URL:'' s1)
                | Inr data \<Rightarrow>
                    (case get_prop data ''baseUrl'' of
                       Inl err \<Rightarrow> (fallback_url, console LError ''Error fetching base URL:'' s1)
                     | Inr b \<Rightarrow> (b, s1))))"

text \<open>\<^verbatim>\<open>fetchWithRetry\<close> of utils.js, the same text as the one of background.js.\<close>

function utils_fetchWithRetry_loop ::
  "env \<Rightarrow> string \<Rightarrow> options \<Rightarrow> nat \<Rightarrow> nat \<Rightarrow> nat \<Rightarrow> state \<Rightarrow> (error + response) \<times> state" where
  "utils_fetchWithRetry_loop e url opts retries delay attempt s =
     (if attempt < retries then
        (case attempt_once e url opts s of
           (Inr r, s1) \<Rightarrow> (Inr r, s1)
         | (Inl err, s1) \<Rightarrow>
             let s2 = console LError (attempt_failed_msg attempt) s1;
                 s3 = (if attempt < retries - 1 then sleep delay s2 else s2)
             in utils_fetchWithRetry_loop e url opts retries delay (attempt + 1) s3)
      else (Inl (Error ''All retry attempts failed''), s))"
  by pat_completeness auto
termination
  by (relation "measure (\<lambda>(e, url, opts, retries, delay, attempt, s). retries - attempt)") auto

declare utils_fetchWithRetry_loop.simps [simp del]

definition utils_fetchWithRetry ::
  "env \<Rightarrow> string \<Rightarrow> options \<Rightarrow> nat \<Rightarrow> nat \<Rightarrow> state \<Rightarrow> (error + response) \<times> state" where
  "utils_fetchWithRetry e url opts retries delay s =
     utils_fetchWithRetry_loop e url opts retries delay 0 s"

section \<open>background.js: the base URL\<close>

definition config_url :: string where
  "config_url = ''https://pipe-network-backend.pipecanary.workers.dev/api/getBaseUrl''"

text \<open>\<^verbatim>\<open>fetchBaseUrl\<close>: the retrying client with its defaults (3 attempts, 1000 ms), then
  \<^verbatim>\<open>data && data.baseUrl\<close>; every throw inside the \<^verbatim>\<open>try\<close> ends in the fallback.\<close>

definition fetchBaseUrl :: "env \<Rightarrow> state \<Rightarrow> jsval \<times> state" where
  "fetchBaseUrl e s =
     (case fetchWithRetry e config_url no_options 3 1000 s of
        (Inl err, s1) \<Rightarrow> (fallback_url, console LError ''Error fetching base URL:'' s1)
      | (Inr r, s1) \<Rightarrow>
          (case json r of
             Inl err \<Rightarrow> (fallback_url, console LError ''Error fetching base URL:'' s1)
           | Inr data \<Rightarrow>
               if truthy data then
                 (case get_prop data ''baseUrl'' of
                    Inl err \<Rightarrow> (fallback_url, console LError ''Error fetching base URL:'' s1)
                  | Inr b \<Rightarrow>
                      if truthy b then (b, s1)
                      else (fallback_url,
                            console LWarn ''No baseUrl provided by backend, using fallback.'' s1))
               else (fallback_url,
                     console LWarn ''No baseUrl provided by backend, using fallback.'' s1)))"

definition ensureBaseUrl :: "env \<Rightarrow> state \<Rightarrow> state" where
  "ensureBaseUrl e s =
     (if \<not> truthy (baseUrl s) then
        (case fetchBaseUrl e s of
           (b, s1) \<Rightarrow> console LLog ''Base URL set to:'' (s1\<lparr>baseUrl := b\<rparr>))
      else s)"

text \<open>The callback of the module's own \<^verbatim>\<open>setInterval\<close> (every 60 minutes).\<close>

definition refresh_tick :: "env \<Rightarrow> state \<Rightarrow> state" where
  "refresh_tick e s =
     (case fetchBaseUrl e s of
        (b, s1) \<Rightarrow> console LLog ''Base URL refreshed:'' (s1\<lparr>baseUrl := b\<rparr>))"

section \<open>background.js: token, latency test, report\<close>

text \<open>\<^verbatim>\<open>getToken\<close>: \<^verbatim>\<open>data.token || null\<close>.\<close>

definition getToken :: "state \<Rightarrow> jsval \<times> state" where
  "getToken s =
     ((if truthy (token_store s) then token_store s else Null), emit (StorageGet ''token'') s)"

definition timeout_ms :: nat where
  "timeout_ms = 5000"

text \<open>
  \<^verbatim>\<open>Promise.race\<close> of a request that is not awaited with a timer that rejects after
  \<open>timeout\<close> milliseconds: the result is ready at the time of the first of the two to
  settle, and a request that settles in the very millisecond of the timer is taken to lose.
\<close>

definition race_timeout :: "(nat \<times> settled) option \<Rightarrow> nat \<Rightarrow> nat \<times> settled" where
  "race_timeout p timeout =
     (case p of
        None \<Rightarrow> (timeout, Rejected (Error ''Timeout''))
      | Some (t, r) \<Rightarrow> if t < timeout then (t, r) else (timeout, Rejected (Error ''Timeout'')))"

text \<open>\<^verbatim>\<open>fetch(url, opts)\<close> whose promise is kept, not awaited.\<close>

definition start_fetch ::
  "env \<Rightarrow> string \<Rightarrow> options \<Rightarrow> state \<Rightarrow> (nat \<times> settled) option \<times> state" where
  "start_fetch e url opts s =
     (probe e (nfetch s) url opts, (emit (Fetch url opts) s)\<lparr>nfetch := Suc (nfetch s)\<rparr>)"

text \<open>
  A template literal around \<^verbatim>\<open>node.node_id\<close>, as the log messages have it: it throws
  when the node is \<^verbatim>\<open>null\<close> or \<^verbatim>\<open>undefined\<close> and when the id has no string form.
\<close>

definition node_msg :: "env \<Rightarrow> jsval \<Rightarrow> string \<Rightarrow> string \<Rightarrow> error + string" where
  "node_msg e node before after =
     (case get_prop node ''node_id'' of
        Inl err \<Rightarrow> Inl err
      | Inr nid \<Rightarrow>
          (case to_str e nid of
             Inl err \<Rightarrow> Inl err
           | Inr n \<Rightarrow> Inr (before @ n @ after)))"

text \<open>\<^verbatim>\<open>`http://${node.ip}`\<close>.\<close>

definition node_url :: "env \<Rightarrow> jsval \<Rightarrow> error + string" where
  "node_url e node =
     (case get_prop node ''ip'' of
        Inl err \<Rightarrow> Inl err
      | Inr ip \<Rightarrow>
          (case to_str e ip of
             Inl err \<Rightarrow> Inl err
           | Inr i \<Rightarrow> Inr (''http://'' @ i)))"

text \<open>The \<^verbatim>\<open>catch\<close> block of \<^verbatim>\<open>testNodeLatency\<close>; a throw of its message leaves the
  function.\<close>

definition testNodeLatency_catch :: "env \<Rightarrow> jsval \<Rightarrow> state \<Rightarrow> (error + int) \<times> state" where
  "testNodeLatency_catch e node s =
     (case node_msg e node ''Node '' '' latency test failed:'' of
        Inl err \<Rightarrow> (Inl err, s)
      | Inr msg \<Rightarrow> (Inr (- 1), console LError msg s))"

definition testNodeLatency :: "env \<Rightarrow> jsval \<Rightarrow> state \<Rightarrow> (error + int) \<times> state" where
  "testNodeLatency e node s =
     (let start = now s; timeout = timeout_ms in
      case node_url e node of
        Inl err \<Rightarrow> testNodeLatency_catch e node s
      | Inr url \<Rightarrow>
          (case start_fetch e url
                  \<lparr>http_method = None, headers = [], body = None, mode = Some ''no-cors''\<rparr> s of
             (p, s1) \<Rightarrow>
               (case race_timeout p timeout of
                  (t, r) \<Rightarrow>
                    let s2 = (emit (SetTimeout timeout) s1)\<lparr>now := now s1 + t\<rparr> in
                    (case r of
                       Fulfilled resp \<Rightarrow> (Inr (int (now s2) - int start), s2)
                     | Rejected err \<Rightarrow> testNodeLatency_catch e node s2))))"

text \<open>The \<^verbatim>\<open>catch\<close> block of \<^verbatim>\<open>reportTestResult\<close>.\<close>

definition reportTestResult_catch :: "env \<Rightarrow> jsval \<Rightarrow> state \<Rightarrow> (error + unit) \<times> state" where
  "reportTestResult_catch e node s =
     (case node_msg e node ''Error reporting result for node '' '':'' of
        Inl err \<Rightarrow> (Inl err, s)
      | Inr msg \<Rightarrow> (Inr (), console LError msg s))"

definition report_body :: "jsval \<Rightarrow> jsval \<Rightarrow> int \<Rightarrow> jsval" where
  "report_body nid ip latency =
     Obj [(''node_id'', nid), (''ip'', ip), (''latency'', Num latency),
          (''status'', Str (if latency > 0 then ''online'' else ''offline''))]"

text \<open>The arguments of the \<^verbatim>\<open>fetch\<close> call of \<^verbatim>\<open>reportTestResult\<close>, evaluated in the
  order of the source: the URL, the \<^verbatim>\<open>Authorization\<close> header, the body.\<close>

definition report_request ::
  "env \<Rightarrow> jsval \<Rightarrow> jsval \<Rightarrow> jsval \<Rightarrow> int \<Rightarrow> error + string \<times> options" where
  "report_request e base token node latency =
     (case to_str e base of
        Inl err \<Rightarrow> Inl err
      | Inr b \<Rightarrow>
          (case to_str e token of
             Inl err \<Rightarrow> Inl err
           | Inr tk \<Rightarrow>
               (case get_prop node ''node_id'' of
                  Inl err \<Rightarrow> Inl err
                | Inr nid \<Rightarrow>
                    (case get_prop node ''ip'' of
                       Inl err \<Rightarrow> Inl err
                     | Inr ip \<Rightarrow>
                         Inr (b @ ''/api/test'',
                              \<lparr>http_method = Some ''POST'',
                               headers = [(''Content-Type'', ''application/json''),
                                          (''Authorization'', ''Bearer '' @ tk)],
                               body = Some (report_body nid ip latency),
                               mode = None\<rparr>)))))"

definition reportTestResult :: "env \<Rightarrow> jsval \<Rightarrow> int \<Rightarrow> state \<Rightarrow> (error + unit) \<times> state" where
  "reportTestResult e node latency s =
     (case getToken s of
        (token, s1) \<Rightarrow>
          if \<not> truthy token then
            (Inr (), console LWarn ''No token found. Skipping result reporting.'' s1)
          else
            (case report_request e (baseUrl s1) token node latency of
               Inl err \<Rightarrow> reportTestResult_catch e node s1
             | Inr (url, opts) \<Rightarrow>
                 (case await_fetch e url opts s1 of
                    (Rejected err, s2) \<Rightarrow> reportTestResult_catch e node s2
                  | (Fulfilled r, s2) \<Rightarrow>
                      if ok r then
                        (case node_msg e node ''Reported result for node '' ''.'' of
                           Inl err \<Rightarrow> reportTestResult_catch e node s2
                         | Inr msg \<Rightarrow> (Inr (), console LLog msg s2))
                      else
                        (case node_msg e node ''Failed to report result for node '' '':'' of
                           Inl err \<Rightarrow> reportTestResult_catch e node s2
                         | Inr msg \<Rightarrow> (Inr (), console LError msg s2)))))"

section \<open>background.js: the node test cycle\<close>

text \<open>What \<^verbatim>\<open>for (const node of nodes)\<close> iterates: an array's elements, a string's
  characters; anything else is not iterable.\<close>

fun iterate :: "jsval \<Rightarrow> error + jsval list" where
  "iterate (Arr xs) = Inr xs"
| "iterate (Str s) = Inr (map (\<lambda>c. Str [c]) s)"
| "iterate v = Inl TypeError"

text \<open>\<^verbatim>\<open>`Node ${node.node_id} (${node.ip}) latency: ${latency}ms`\<close>.\<close>

definition latency_msg :: "env \<Rightarrow> jsval \<Rightarrow> int \<Rightarrow> error + string" where
  "latency_msg e node latency =
     (case node_msg e node ''Node '' '' ('' of
        Inl err \<Rightarrow> Inl err
      | Inr m \<Rightarrow>
          (case get_prop node ''ip'' of
             Inl err \<Rightarrow> Inl err
           | Inr ip \<Rightarrow>
               (case to_str e ip of
                  Inl err \<Rightarrow> Inl err
                | Inr i \<Rightarrow> Inr (m @ i @ '') latency: '' @ num_str e latency @ ''ms''))))"

fun node_loop :: "env \<Rightarrow> jsval list \<Rightarrow> state \<Rightarrow> (error + unit) \<times> state" where
  "node_loop e [] s = (Inr (), s)"
| "node_loop e (node # rest) s =
     (case testNodeLatency e node s of
        (Inl err, s1) \<Rightarrow> (Inl err, s1)
      | (Inr latency, s1) \<Rightarrow>
          (case latency_msg e node latency of
             Inl err \<Rightarrow> (Inl err, s1)
           | Inr msg \<Rightarrow>
               (case reportTestResult e node latency (console LLog msg s1) of
                  (Inl err, s3) \<Rightarrow> (Inl err, s3)
                | (Inr u, s3) \<Rightarrow> node_loop e rest s3)))"

definition runNodeTests :: "env \<Rightarrow> state \<Rightarrow> state" where
  "runNodeTests e s =
     (let s1 = ensureBaseUrl e s in
      case to_str e (baseUrl s1) of
        Inl err \<Rightarrow> console LError ''Error running node tests:'' s1
      | Inr base \<Rightarrow>
          (case fetchWithRetry e (base @ ''/api/nodes'') no_options 3 1000 s1 of
             (Inl err, s2) \<Rightarrow> console LError ''Error running node tests:'' s2
           | (Inr r, s2) \<Rightarrow>
               (case json r of
                  Inl err \<Rightarrow> console LError ''Error running node tests:'' s2
                | Inr nodes \<Rightarrow>
                    (case iterate nodes of
                       Inl err \<Rightarrow> console LError ''Error running node tests:'' s2
                     | Inr xs \<Rightarrow>
                         (case node_loop e xs s2 of
                            (Inl err, s3) \<Rightarrow> console LError ''Error running node tests:'' s3
                          | (Inr u, s3) \<Rightarrow> console LLog ''All node tests completed.'' s3)))))"

section \<open>background.js: rewards and notifications\<close>

text \<open>\<^verbatim>\<open>showNotification\<close>: the callback of \<^verbatim>\<open>chrome.notifications.create\<close> receives the id
  the notification was created with, and stores the link under it.\<close>

definition showNotification :: "string \<Rightarrow> jsval \<Rightarrow> state \<Rightarrow> state" where
  "showNotification message link s =
     (emit (NotificationCreate ''rewardsNotification'' message) s)
       \<lparr>notificationLinks := (notificationLinks s)(''rewardsNotification'' \<mapsto> link)\<rparr>"

text \<open>The arguments of the \<^verbatim>\<open>fetch\<close> call of \<^verbatim>\<open>checkForRewards\<close>.\<close>

definition rewards_request :: "env \<Rightarrow> jsval \<Rightarrow> jsval \<Rightarrow> error + string \<times> options" where
  "rewards_request e base token =
     (case to_str e base of
        Inl err \<Rightarrow> Inl err
      | Inr b \<Rightarrow>
          (case to_str e token of
             Inl err \<Rightarrow> Inl err
           | Inr tk \<Rightarrow>
               Inr (b @ ''/api/rewards'',
                    \<lparr>http_method = None, headers = [(''Authorization'', ''Bearer '' @ tk)],
                     body = None, mode = None\<rparr>)))"

definition checkForRewards :: "env \<Rightarrow> state \<Rightarrow> state" where
  "checkForRewards e s =
     (case getToken (ensureBaseUrl e s) of
        (token, s2) \<Rightarrow>
          if \<not> truthy token then console LWarn ''No token found. Skipping rewards check.'' s2
          else
            (case rewards_request e (baseUrl s2) token of
               Inl err \<Rightarrow> console LError ''Error checking for rewards:'' s2
             | Inr (url, opts) \<Rightarrow>
                 (case await_fetch e url opts s2 of
                    (Rejected err, s3) \<Rightarrow> console LError ''Error checking for rewards:'' s3
                  | (Fulfilled r, s3) \<Rightarrow>
                      if ok r then
                        (case json r of
                           Inl err \<Rightarrow> console LError ''Error checking for rewards:'' s3
                         | Inr data \<Rightarrow>
                             (case Object_keys data of
                                Inl err \<Rightarrow> console LError ''Error checking for rewards:'' s3
                              | Inr ks \<Rightarrow>
                                  if length ks > 0 then
                                    (case get_prop data ''link'' of
                                       Inl err \<Rightarrow>
                                         console LError ''Error checking for rewards:'' s3
                                     | Inr link \<Rightarrow>
                                         (case to_str e link of
                                            Inl err \<Rightarrow>
                                              console LError ''Error checking for rewards:'' s3
                                          | Inr l \<Rightarrow>
                                              showNotification
                                                (''Earn more rewards points! Visit: '' @ l)
                                                link s3))
                                  else console LLog ''No rewards available at the moment.'' s3))
                      else console LWarn ''Failed to fetch rewards data.'' s3)))"

text \<open>The listener of \<^verbatim>\<open>chrome.notifications.onButtonClicked\<close>.\<close>

definition onButtonClicked :: "string \<Rightarrow> nat \<Rightarrow> state \<Rightarrow> state" where
  "onButtonClicked notificationId buttonIndex s =
     (case notificationLinks s notificationId of
        None \<Rightarrow> s
      | Some link \<Rightarrow>
          if truthy link \<and> buttonIndex = 0 then
            (emit (TabsCreate link) s)
              \<lparr>notificationLinks := (notificationLinks s)(notificationId := None)\<rparr>
          else s)"

section \<open>background.js: heartbeat\<close>

text \<open>The object \<^verbatim>\<open>getGeoLocation\<close> builds from the payload: \<^verbatim>\<open>data.ip\<close> and the
  \<^verbatim>\<open>location\<close> template.\<close>

definition geo_of :: "env \<Rightarrow> jsval \<Rightarrow> error + jsval \<times> jsval" where
  "geo_of e data =
     (case get_prop data ''ip'' of
        Inl err \<Rightarrow> Inl err
      | Inr ip \<Rightarrow>
          (case get_prop data ''city'' of
             Inl err \<Rightarrow> Inl err
           | Inr city \<Rightarrow>
               (case to_str e city of
                  Inl err \<Rightarrow> Inl err
                | Inr c \<Rightarrow>
                    (case get_prop data ''region'' of
                       Inl err \<Rightarrow> Inl err
                     | Inr region \<Rightarrow>
                         (case to_str e region of
                            Inl err \<Rightarrow> Inl err
                          | Inr r \<Rightarrow>
                              (case get_prop data ''country_name'' of
                                 Inl err \<Rightarrow> Inl err
                               | Inr country \<Rightarrow>
                                   (case to_str e country of
                                      Inl err \<Rightarrow> Inl err
                                    | Inr n \<Rightarrow>
                                        Inr (ip, Str (c @ '', '' @ r @ '', '' @ n)))))))))"

definition unknown_geo :: "jsval \<times> jsval" where
  "unknown_geo = (Str ''0.0.0.0'', Str ''Unknown Location'')"

text \<open>\<^verbatim>\<open>getGeoLocation\<close> returns the pair of \<^verbatim>\<open>ip\<close> and \<^verbatim>\<open>location\<close>.\<close>

definition getGeoLocation :: "env \<Rightarrow> state \<Rightarrow> (jsval \<times> jsval) \<times> state" where
  "getGeoLocation e s =
     (case await_fetch e ''https://ipapi.co/json/'' no_options s of
        (Rejected err, s1) \<Rightarrow> (unknown_geo, console LError ''Geo-location error:'' s1)
      | (Fulfilled r, s1) \<Rightarrow>
          if \<not> ok r then (unknown_geo, console LError ''Geo-location error:'' s1)
          else (case json r of
                  Inl err \<Rightarrow> (unknown_geo, console LError ''Geo-location error:'' s1)
                | Inr data \<Rightarrow>
                    (case geo_of e data of
                       Inl err \<Rightarrow> (unknown_geo, console LError ''Geo-location error:'' s1)
                     | Inr g \<Rightarrow> (g, s1))))"

definition heartbeat_period :: nat where
  "heartbeat_period = 6 * 60 * 60 * 1000"

text \<open>The arguments of the \<^verbatim>\<open>fetch\<close> call of the heartbeat.\<close>

definition heartbeat_request ::
  "env \<Rightarrow> jsval \<Rightarrow> jsval \<Rightarrow> jsval \<times> jsval \<Rightarrow> nat \<Rightarrow> error + string \<times> options" where
  "heartbeat_request e base token geoInfo timestamp =
     (case to_str e base of
        Inl err \<Rightarrow> Inl err
      | Inr b \<Rightarrow>
          (case to_str e token of
             Inl err \<Rightarrow> Inl err
           | Inr tk \<Rightarrow>
               Inr (b @ ''/api/heartbeat'',
                    \<lparr>http_method = Some ''POST'',
                     headers = [(''Authorization'', ''Bearer '' @ tk),
                                (''Content-Type'', ''application/json'')],
                     body = Some (Obj [(''ip'', fst geoInfo), (''location'', snd geoInfo),
                                       (''timestamp'', Num (int timestamp))]),
                     mode = None\<rparr>)))"

text \<open>The callback \<^verbatim>\<open>startHeartbeat\<close> hands to \<^verbatim>\<open>setInterval\<close>; \<open>token\<close> is the variable
  of the enclosing call that the closure captured.\<close>

definition heartbeat_tick :: "env \<Rightarrow> jsval \<Rightarrow> state \<Rightarrow> state" where
  "heartbeat_tick e token s =
     (case getGeoLocation e s of
        (geoInfo, s1) \<Rightarrow>
          (case heartbeat_request e (baseUrl s1) token geoInfo (now s1) of
             Inl err \<Rightarrow> console LError ''Error during heartbeat:'' s1
           | Inr (url, opts) \<Rightarrow>
               (case await_fetch e url opts s1 of
                  (Rejected err, s2) \<Rightarrow> console LError ''Error during heartbeat:'' s2
                | (Fulfilled r, s2) \<Rightarrow>
                    if ok r then console LLog ''Heartbeat sent successfully.'' s2
                    else console LError ''Heartbeat failed:'' s2)))"

definition startHeartbeat :: "env \<Rightarrow> state \<Rightarrow> state" where
  "startHeartbeat e s =
     (case getToken (ensureBaseUrl e s) of
        (token, s2) \<Rightarrow>
          if \<not> truthy token then console LWarn ''No token found. Skipping heartbeat.'' s2
          else (emit (SetInterval heartbeat_period (HeartbeatTick token)) s2)
                 \<lparr>timers := timers s2 @ [(heartbeat_period, HeartbeatTick token)]\<rparr>)"

section \<open>background.js: listeners and timers\<close>

definition run_callback :: "env \<Rightarrow> callback \<Rightarrow> state \<Rightarrow> state" where
  "run_callback e cb s =
     (case cb of HeartbeatTick token \<Rightarrow> heartbeat_tick e token s | RefreshTick \<Rightarrow> refresh_tick e s)"

definition refresh_period :: nat where
  "refresh_period = 60 * 60 * 1000"

text \<open>The state once the module is loaded: \<^verbatim>\<open>baseUrl = null\<close>, no notification link, the
  refresh timer installed.\<close>

definition loaded :: "jsval \<Rightarrow> nat \<Rightarrow> state" where
  "loaded stored_token t0 =
     \<lparr>baseUrl = Null, notificationLinks = Map.empty, token_store = stored_token,
      timers = [(refresh_period, RefreshTick)], now = t0, nfetch = 0,
      trace = [SetInterval refresh_period RefreshTick]\<rparr>"

text \<open>
  What the platform can do to the program: fire \<^verbatim>\<open>onInstalled\<close>, an alarm, the \<open>i\<close>-th
  interval timer or a notification button, and (outside the program) replace the stored
  token. The two \<^verbatim>\<open>chrome.alarms.create\<close> calls of \<^verbatim>\<open>onInstalled\<close> leave no mark in the
  state. Each listener runs to its end before the next trigger is handled: the embedding
  does not interleave two listeners at their \<^verbatim>\<open>await\<close> points.
\<close>

datatype trigger =
    Installed
  | Alarm string
  | Timer nat
  | ButtonClicked string nat
  | StorageSet jsval

definition onAlarm :: "env \<Rightarrow> string \<Rightarrow> state \<Rightarrow> state" where
  "onAlarm e name s =
     (if name = ''nodeTestAlarm'' then runNodeTests e (console LLog ''Running node tests...'' s)
      else if name = ''dailyRewardsCheck'' then
        checkForRewards e (console LLog ''Checking for rewards...'' s)
      else console LWarn (''Unknown alarm triggered: '' @ name) s)"

fun fire :: "env \<Rightarrow> trigger \<Rightarrow> state \<Rightarrow> state" where
  "fire e Installed s = startHeartbeat e s"
| "fire e (Alarm name) s = onAlarm e name s"
| "fire e (Timer i) s = (if i < length (timers s) then run_callback e (snd (timers s ! i)) s else s)"
| "fire e (ButtonClicked notificationId buttonIndex) s = onButtonClicked notificationId buttonIndex s"
| "fire e (StorageSet v) s = s\<lparr>token_store := v\<rparr>"

fun run :: "env \<Rightarrow> trigger list \<Rightarrow> state \<Rightarrow> state" where
  "run e [] s = s"
| "run e (t # ts) s = run e ts (fire e t s)"

section \<open>Notions the properties are stated with\<close>

text \<open>The reply to the \<open>k\<close>-th awaited request counted from state \<open>s\<close>.\<close>

definition reply :: "env \<Rightarrow> state \<Rightarrow> string \<Rightarrow> options \<Rightarrow> nat \<Rightarrow> settled" where
  "reply e s url opts k = snd (net e (nfetch s + k) url opts)"

text \<open>The time the \<open>k\<close>-th awaited request counted from state \<open>s\<close> takes to settle.\<close>

definition duration :: "env \<Rightarrow> state \<Rightarrow> string \<Rightarrow> options \<Rightarrow> nat \<Rightarrow> nat" where
  "duration e s url opts k = fst (net e (nfetch s + k) url opts)"

text \<open>The replies on which the \<^verbatim>\<open>try\<close> block of \<^verbatim>\<open>fetchWithRetry\<close> throws.\<close>

fun attempt_fails :: "settled \<Rightarrow> bool" where
  "attempt_fails (Rejected err) = True"
| "attempt_fails (Fulfilled r) = (\<not> ok r)"

text \<open>The failed attempts in the words of the specification: a network error, or a status
  that is neither 2xx nor 3xx.\<close>

fun claimed_attempt_fails :: "settled \<Rightarrow> bool" where
  "claimed_attempt_fails (Rejected err) = True"
| "claimed_attempt_fails (Fulfilled r) = (\<not> (200 \<le> status r \<and> status r \<le> 399))"

text \<open>The value \<^verbatim>\<open>o.k\<close> of an object with the own properties \<open>kvs\<close>.\<close>

definition field :: "(string \<times> jsval) list \<Rightarrow> string \<Rightarrow> jsval" where
  "field kvs k = (case map_of kvs k of Some v \<Rightarrow> v | None \<Rightarrow> Undefined)"

text \<open>The events a run from \<open>s\<close> to \<open>s'\<close> added to the trace.\<close>

definition issued :: "state \<Rightarrow> state \<Rightarrow> event list" where
  "issued s s' = drop (length (trace s)) (trace s')"

fun is_Fetch :: "event \<Rightarrow> bool" where
  "is_Fetch (Fetch url opts) = True"
| "is_Fetch ev = False"

definition fetches :: "event list \<Rightarrow> event list" where
  "fetches evs = filter is_Fetch evs"

fun is_StorageGet :: "event \<Rightarrow> bool" where
  "is_StorageGet (StorageGet k) = True"
| "is_StorageGet ev = False"

fun is_NotificationCreate :: "event \<Rightarrow> bool" where
  "is_NotificationCreate (NotificationCreate i m) = True"
| "is_NotificationCreate ev = False"

fun is_SetInterval :: "event \<Rightarrow> bool" where
  "is_SetInterval (SetInterval d cb) = True"
| "is_SetInterval ev = False"

text \<open>What is not the trace, the clock or the request counter.\<close>

definition globals :: "state \<Rightarrow> jsval \<times> (string \<rightharpoonup> jsval) \<times> jsval \<times> (nat \<times> callback) list" where
  "globals s = (baseUrl s, notificationLinks s, token_store s, timers s)"

text \<open>A run from \<open>s\<close> to \<open>s'\<close> that only talked to the platform: the trace grew and the
  globals, the stored token and the timers are as they were.\<close>

definition advances :: "state \<Rightarrow> state \<Rightarrow> bool" where
  "advances s s' = (globals s' = globals s \<and> prefix (trace s) (trace s'))"

section \<open>Concrete inputs\<close>

definition env_down :: env where
  "env_down = \<lparr>net = (\<lambda>k url opts. (0, Rejected NetworkFailure)), probe = (\<lambda>k url opts. None), big_number_text = show_int\<rparr>"

definition response_ok :: "jsval \<Rightarrow> response" where
  "response_ok v = \<lparr>status = 200, json_body = Some v\<rparr>"

text \<open>A backend that rejects the first two requests and answers the third with 200 and
  \<^verbatim>\<open>{}\<close>, each request taking 7 ms.\<close>

definition env_third_time_slow :: env where
  "env_third_time_slow =
     \<lparr>net = (\<lambda>k url opts. (7, if k < 2 then Rejected NetworkFailure else Fulfilled (response_ok (Obj [])))),
      probe = (\<lambda>k url opts. None), big_number_text = show_int\<rparr>"

definition response_status :: "nat \<Rightarrow> response" where
  "response_status n = \<lparr>status = n, json_body = None\<rparr>"

text \<open>A backend that answers every request with the status \<open>n\<close> and no JSON body.\<close>

definition env_status :: "nat \<Rightarrow> env" where
  "env_status n =
     \<lparr>net = (\<lambda>k url opts. (0, Fulfilled (response_status n))), probe = (\<lambda>k url opts. None), big_number_text = show_int\<rparr>"

text \<open>A backend that answers every request with the status 200 and the JSON body \<open>v\<close>.\<close>

definition env_json :: "jsval \<Rightarrow> env" where
  "env_json v =
     \<lparr>net = (\<lambda>k url opts. (0, Fulfilled (response_ok v))), probe = (\<lambda>k url opts. None), big_number_text = show_int\<rparr>"

text \<open>A platform on which every raced request behaves as \<open>p\<close> says, and every awaited one
  is rejected.\<close>

definition env_probe :: "(nat \<times> settled) option \<Rightarrow> env" where
  "env_probe p =
     \<lparr>net = (\<lambda>k url opts. (0, Rejected NetworkFailure)), probe = (\<lambda>k url opts. p), big_number_text = show_int\<rparr>"

definition node_a :: jsval where
  "node_a = Obj [(''node_id'', Str ''a''), (''ip'', Str ''10.0.0.1'')]"

section \<open>Properties of fetchWithRetry\<close>

lemma attempt_once_state:
  "snd (attempt_once e url opts s) =
     (emit (Fetch url opts) s)\<lparr>nfetch := Suc (nfetch s), now := now s + fst (net e (nfetch s) url opts)\<rparr>"
  by (simp add: attempt_once_def await_fetch_def split: settled.splits)

lemma attempt_once_Inr:
  "fst (attempt_once e url opts s) = Inr r \<longleftrightarrow> (reply e s url opts 0 = Fulfilled r \<and> ok r)"
  by (auto simp add: attempt_once_def await_fetch_def reply_def split: settled.splits)

lemma attempt_once_Inl:
  "(\<exists>err. fst (attempt_once e url opts s) = Inl err) \<longleftrightarrow> attempt_fails (reply e s url opts 0)"
  by (auto simp add: attempt_once_def await_fetch_def reply_def split: settled.splits)

lemma trace_emit [simp]: "trace (emit ev s) = trace s @ [ev]"
  by (simp add: emit_def)
lemma nfetch_emit [simp]: "nfetch (emit ev s) = nfetch s"
  by (simp add: emit_def)
lemma trace_console [simp]: "trace (console l m s) = trace s @ [Console l m]"
  by (simp add: console_def)
lemma nfetch_console [simp]: "nfetch (console l m s) = nfetch s"
  by (simp add: console_def)
lemma trace_sleep [simp]: "trace (sleep d s) = trace s @ [SetTimeout d]"
  by (simp add: sleep_def)
lemma nfetch_sleep [simp]: "nfetch (sleep d s) = nfetch s"
  by (simp add: sleep_def)

lemma loop_step_fail:
  assumes "attempt < retries" "attempt_fails (reply e s url opts 0)"
  shows "fetchWithRetry_loop e url opts retries delay attempt s =
     fetchWithRetry_loop e url opts retries delay (attempt + 1)
       (let s2 = console LError (attempt_failed_msg attempt) (snd (attempt_once e url opts s))
        in if attempt < retries - 1 then sleep delay s2 else s2)"
proof -
  from assms(2) obtain err where "fst (attempt_once e url opts s) = Inl err"
    using attempt_once_Inl by blast
  then obtain s1 where "attempt_once e url opts s = (Inl err, s1)"
    by (cases "attempt_once e url opts s") simp
  then show ?thesis
    using assms(1) by (subst fetchWithRetry_loop.simps) (simp add: Let_def)
qed

lemma loop_step_ok:
  assumes "attempt < retries" "reply e s url opts 0 = Fulfilled r" "ok r"
  shows "fetchWithRetry_loop e url opts retries delay attempt s = (Inr r, snd (attempt_once e url opts s))"
proof -
  have "fst (attempt_once e url opts s) = Inr r"
    using assms attempt_once_Inr by blast
  then obtain s1 where "attempt_once e url opts s = (Inr r, s1)"
    by (cases "attempt_once e url opts s") simp
  then show ?thesis
    using assms(1) by (subst fetchWithRetry_loop.simps) simp
qed

lemma loop_success:
  "attempt + m < retries \<Longrightarrow> (\<forall>k<m. attempt_fails (reply e s url opts k)) \<Longrightarrow>
   reply e s url opts m = Fulfilled r \<Longrightarrow> ok r \<Longrightarrow>
   fst (fetchWithRetry_loop e url opts retries delay attempt s) = Inr r \<and>
   trace (snd (fetchWithRetry_loop e url opts retries delay attempt s)) =
     trace s @ concat (map (\<lambda>i. [Fetch url opts, Console LError (attempt_failed_msg i), SetTimeout delay])
                         [attempt..<attempt + m]) @ [Fetch url opts] \<and>
   nfetch (snd (fetchWithRetry_loop e url opts retries delay attempt s)) = nfetch s + m + 1"
proof (induction m arbitrary: attempt s)
  case 0
  then show ?case
    by (simp add: loop_step_ok attempt_once_state)
next
  case (Suc m)
  define s3 where "s3 = sleep delay (console LError (attempt_failed_msg attempt) (snd (attempt_once e url opts s)))"
  define f where "f = (\<lambda>i. [Fetch url opts, Console LError (attempt_failed_msg i), SetTimeout delay])"
  have f0: "attempt_fails (reply e s url opts 0)" using Suc.prems(2) by simp
  have lt: "attempt < retries" "attempt < retries - 1" using Suc.prems(1) by simp_all
  have step: "fetchWithRetry_loop e url opts retries delay attempt s =
      fetchWithRetry_loop e url opts retries delay (attempt + 1) s3"
    using loop_step_fail[OF lt(1) f0] lt(2) by (simp add: Let_def s3_def)
  have nf: "nfetch s3 = Suc (nfetch s)" by (simp add: attempt_once_state s3_def)
  have rep: "\<And>k. reply e s3 url opts k = reply e s url opts (Suc k)"
    by (simp add: reply_def nf)
  have tr: "trace s3 = trace s @ f attempt"
    by (simp add: attempt_once_state s3_def f_def)
  have IH: "fst (fetchWithRetry_loop e url opts retries delay (attempt + 1) s3) = Inr r \<and>
   trace (snd (fetchWithRetry_loop e url opts retries delay (attempt + 1) s3)) =
     trace s3 @ concat (map f [attempt + 1..<attempt + 1 + m]) @ [Fetch url opts] \<and>
   nfetch (snd (fetchWithRetry_loop e url opts retries delay (attempt + 1) s3)) = nfetch s3 + m + 1"
    unfolding f_def using Suc.prems by (intro Suc.IH) (simp_all add: rep)
  have upt: "[attempt..<attempt + Suc m] = attempt # [attempt + 1..<attempt + 1 + m]"
    by (simp add: upt_rec)
  have cc: "trace s3 @ concat (map f [attempt + 1..<attempt + 1 + m]) @ [Fetch url opts]
      = trace s @ concat (map f [attempt..<attempt + Suc m]) @ [Fetch url opts]"
    unfolding upt tr by simp
  show ?case
    unfolding step f_def[symmetric] using IH cc nf by simp
qed


lemma loop_exhaust:
  "n = retries - attempt \<Longrightarrow> attempt \<le> retries \<Longrightarrow>
   (\<forall>k<n. attempt_fails (reply e s url opts k)) \<Longrightarrow>
   fst (fetchWithRetry_loop e url opts retries delay attempt s) = Inl (Error ''All retry attempts failed'') \<and>
   trace (snd (fetchWithRetry_loop e url opts retries delay attempt s)) =
     trace s @ concat (map (\<lambda>i. [Fetch url opts, Console LError (attempt_failed_msg i), SetTimeout delay])
                         [attempt..<retries - 1])
       @ (if attempt < retries then [Fetch url opts, Console LError (attempt_failed_msg (retries - 1))] else []) \<and>
   nfetch (snd (fetchWithRetry_loop e url opts retries delay attempt s)) = nfetch s + n"
proof (induction n arbitrary: attempt s)
  case 0
  then have "\<not> attempt < retries" by simp
  then show ?case using 0
    by (subst (1 2 3) fetchWithRetry_loop.simps) simp
next
  case (Suc n)
  define f where "f = (\<lambda>i. [Fetch url opts, Console LError (attempt_failed_msg i), SetTimeout delay])"
  define s2 where "s2 = console LError (attempt_failed_msg attempt) (snd (attempt_once e url opts s))"
  have lt: "attempt < retries" using Suc.prems(1) by simp
  have f0: "attempt_fails (reply e s url opts 0)" using Suc.prems(3) by simp
  have nf2: "nfetch s2 = Suc (nfetch s)" by (simp add: s2_def attempt_once_state)
  have tr2: "trace s2 = trace s @ [Fetch url opts, Console LError (attempt_failed_msg attempt)]"
    by (simp add: s2_def attempt_once_state)
  show ?case
  proof (cases "attempt < retries - 1")
    case True
    define s3 where "s3 = sleep delay s2"
    have step: "fetchWithRetry_loop e url opts retries delay attempt s =
        fetchWithRetry_loop e url opts retries delay (attempt + 1) s3"
      using loop_step_fail[OF lt f0] True by (simp add: Let_def s3_def s2_def)
    have nf: "nfetch s3 = Suc (nfetch s)" by (simp add: s3_def nf2)
    have rep: "\<And>k. reply e s3 url opts k = reply e s url opts (Suc k)"
      by (simp add: reply_def nf)
    have tr: "trace s3 = trace s @ f attempt"
      by (simp add: s3_def tr2 f_def)
    have IH: "fst (fetchWithRetry_loop e url opts retries delay (attempt + 1) s3) = Inl (Error ''All retry attempts failed'') \<and>
      trace (snd (fetchWithRetry_loop e url opts retries delay (attempt + 1) s3)) =
        trace s3 @ concat (map f [attempt + 1..<retries - 1])
          @ (if attempt + 1 < retries then [Fetch url opts, Console LError (attempt_failed_msg (retries - 1))] else []) \<and>
      nfetch (snd (fetchWithRetry_loop e url opts retries delay (attempt + 1) s3)) = nfetch s3 + n"
      unfolding f_def using Suc.prems True by (intro Suc.IH) (simp_all add: rep)
    have upt: "[attempt..<retries - 1] = attempt # [attempt + 1..<retries - 1]"
      using True by (simp add: upt_rec)
    have cc: "trace s3 @ concat (map f [attempt + 1..<retries - 1]) = trace s @ concat (map f [attempt..<retries - 1])"
      unfolding upt tr by simp
    have lt2: "attempt + 1 < retries" using True by simp
    show ?thesis
      unfolding step f_def[symmetric] using IH cc nf lt lt2 by simp
  next
    case False
    then have eq: "attempt + 1 = retries" using lt by simp
    have step: "fetchWithRetry_loop e url opts retries delay attempt s =
        fetchWithRetry_loop e url opts retries delay (attempt + 1) s2"
      using loop_step_fail[OF lt f0] False by (simp add: Let_def s2_def)
    have fin: "fetchWithRetry_loop e url opts retries delay (attempt + 1) s2 =
        (Inl (Error ''All retry attempts failed''), s2)"
      using eq by (subst fetchWithRetry_loop.simps) simp
    have n0: "n = 0" using Suc.prems(1) eq by simp
    have e: "[attempt..<retries - 1] = []" using False by simp
    have a: "attempt = retries - 1" using eq by simp
    show ?thesis
      unfolding step fin using lt by (simp add: tr2 nf2 n0 e) (simp add: a)
  qed
qed

lemma first_success_or_all_fail:
  "(\<forall>k<n::nat. P k) \<or> (\<exists>m<n. \<not> P m \<and> (\<forall>k<m. P k))"
proof (induction n)
  case 0
  then show ?case by simp
next
  case (Suc n)
  then show ?case
    by (metis less_Suc_eq)
qed

lemma issuedI: "trace s' = trace s @ evs \<Longrightarrow> issued s s' = evs"
  by (simp add: issued_def)

lemma fetches_append: "fetches (xs @ ys) = fetches xs @ fetches ys"
  by (simp add: fetches_def)

lemma fetches_Nil: "fetches [] = []"
  by (simp add: fetches_def)

lemma fetches_Cons: "fetches (ev # evs) = (if is_Fetch ev then ev # fetches evs else fetches evs)"
  by (simp add: fetches_def)

lemma fetches_concat_failures:
  "fetches (concat (map (\<lambda>i. [Fetch url opts, Console LError (attempt_failed_msg i), SetTimeout delay]) xs))
     = replicate (length xs) (Fetch url opts)"
  by (induction xs) (simp_all add: fetches_Nil fetches_Cons)

lemma timeouts_concat_failures:
  "SetTimeout d \<in> set (concat (map (\<lambda>i. [Fetch url opts, Console LError (attempt_failed_msg i), SetTimeout delay]) xs))
     \<longleftrightarrow> xs \<noteq> [] \<and> d = delay"
  by (induction xs) auto

lemma fetchWithRetry_success:
  assumes "m < retries" "\<forall>k<m. attempt_fails (reply e s url opts k)"
    "reply e s url opts m = Fulfilled r" "ok r"
  shows "fst (fetchWithRetry e url opts retries delay s) = Inr r"
    and "issued s (snd (fetchWithRetry e url opts retries delay s)) =
      concat (map (\<lambda>i. [Fetch url opts, Console LError (attempt_failed_msg i), SetTimeout delay]) [0..<m])
        @ [Fetch url opts]"
    and "nfetch (snd (fetchWithRetry e url opts retries delay s)) = nfetch s + m + 1"
  using loop_success[of 0 m retries e s url opts r delay] assms
  by (simp_all add: fetchWithRetry_def issuedI)

lemma fetchWithRetry_exhausted:
  assumes "\<forall>k<retries. attempt_fails (reply e s url opts k)"
  shows "fst (fetchWithRetry e url opts retries delay s) = Inl (Error ''All retry attempts failed'')"
    and "issued s (snd (fetchWithRetry e url opts retries delay s)) =
      concat (map (\<lambda>i. [Fetch url opts, Console LError (attempt_failed_msg i), SetTimeout delay])
                [0..<retries - 1])
        @ (if 0 < retries then [Fetch url opts, Console LError (attempt_failed_msg (retries - 1))] else [])"
    and "nfetch (snd (fetchWithRetry e url opts retries delay s)) = nfetch s + retries"
  using loop_exhaust[of retries retries 0 e s url opts delay] assms
  by (simp_all add: fetchWithRetry_def issuedI)

lemma attempt_fails_iff: "\<not> attempt_fails x \<longleftrightarrow> (\<exists>r. x = Fulfilled r \<and> ok r)"
  by (cases x) auto

lemma fetchWithRetry_bounds:
  "length (fetches (issued s (snd (fetchWithRetry e url opts retries delay s)))) \<le> retries"
  "SetTimeout d \<in> set (issued s (snd (fetchWithRetry e url opts retries delay s))) \<Longrightarrow> d = delay"
proof -
  let ?P = "\<lambda>k. attempt_fails (reply e s url opts k)"
  let ?evs = "issued s (snd (fetchWithRetry e url opts retries delay s))"
  let ?f = "\<lambda>i. [Fetch url opts, Console LError (attempt_failed_msg i), SetTimeout delay]"
  have "length (fetches ?evs) \<le> retries \<and> (SetTimeout d \<in> set ?evs \<longrightarrow> d = delay)"
    using first_success_or_all_fail[of retries ?P]
  proof
    assume all: "\<forall>k<retries. ?P k"
    have ev: "?evs = concat (map ?f [0..<retries - 1])
        @ (if 0 < retries then [Fetch url opts, Console LError (attempt_failed_msg (retries - 1))] else [])"
      by (rule fetchWithRetry_exhausted(2)[OF all])
    have 1: "length (fetches ?evs) \<le> retries"
      unfolding ev by (simp add: fetches_append fetches_concat_failures fetches_Cons fetches_Nil)
    have 2: "SetTimeout d \<in> set ?evs \<longrightarrow> d = delay"
      unfolding ev by (simp add: timeouts_concat_failures)
    show ?thesis using 1 2 by simp
  next
    assume "\<exists>m<retries. \<not> ?P m \<and> (\<forall>k<m. ?P k)"
    then obtain m where m: "m < retries" "\<not> ?P m" "\<forall>k<m. ?P k"
      by blast
    from m(2) obtain r where r: "reply e s url opts m = Fulfilled r" "ok r"
      unfolding attempt_fails_iff by blast
    have ev: "?evs = concat (map ?f [0..<m]) @ [Fetch url opts]"
      by (rule fetchWithRetry_success(2)[OF m(1) m(3) r])
    have 1: "length (fetches ?evs) \<le> retries"
      unfolding ev using m(1) by (simp add: fetches_append fetches_concat_failures fetches_Cons fetches_Nil)
    have 2: "SetTimeout d \<in> set ?evs \<longrightarrow> d = delay"
      unfolding ev by (simp add: timeouts_concat_failures)
    show ?thesis using 1 2 by simp
  qed
  then show "length (fetches ?evs) \<le> retries" "SetTimeout d \<in> set ?evs \<Longrightarrow> d = delay"
    by simp_all
qed

text \<open>The clock: each attempt takes the time of its request, and each wait takes \<open>delay\<close>.\<close>

lemma now_emit [simp]: "now (emit ev s) = now s"
  by (simp add: emit_def)

lemma now_console [simp]: "now (console l m s) = now s"
  by (simp add: console_def)

lemma now_sleep [simp]: "now (sleep d s) = now s + d"
  by (simp add: sleep_def)

lemma now_attempt_once: "now (snd (attempt_once e url opts s)) = now s + duration e s url opts 0"
  by (simp add: attempt_once_state duration_def)

lemma loop_success_now:
  "attempt + m < retries \<Longrightarrow> (\<forall>k<m. attempt_fails (reply e s url opts k)) \<Longrightarrow>
   reply e s url opts m = Fulfilled r \<Longrightarrow> ok r \<Longrightarrow>
   now (snd (fetchWithRetry_loop e url opts retries delay attempt s)) =
     now s + (\<Sum>k<Suc m. duration e s url opts k) + m * delay"
proof (induction m arbitrary: attempt s)
  case 0
  then show ?case
    by (simp add: loop_step_ok now_attempt_once)
next
  case (Suc m)
  define s3 where "s3 = sleep delay (console LError (attempt_failed_msg attempt) (snd (attempt_once e url opts s)))"
  have f0: "attempt_fails (reply e s url opts 0)" using Suc.prems(2) by simp
  have lt: "attempt < retries" "attempt < retries - 1" using Suc.prems(1) by simp_all
  have step: "fetchWithRetry_loop e url opts retries delay attempt s =
      fetchWithRetry_loop e url opts retries delay (attempt + 1) s3"
    using loop_step_fail[OF lt(1) f0] lt(2) by (simp add: Let_def s3_def)
  have nf: "nfetch s3 = Suc (nfetch s)" by (simp add: attempt_once_state s3_def)
  have rep: "\<And>k. reply e s3 url opts k = reply e s url opts (Suc k)"
    by (simp add: reply_def nf)
  have dur: "\<And>k. duration e s3 url opts k = duration e s url opts (Suc k)"
    by (simp add: duration_def nf)
  have nw: "now s3 = now s + duration e s url opts 0 + delay"
    by (simp add: s3_def now_attempt_once)
  have IH: "now (snd (fetchWithRetry_loop e url opts retries delay (attempt + 1) s3)) =
     now s3 + (\<Sum>k<Suc m. duration e s3 url opts k) + m * delay"
    using Suc.prems by (intro Suc.IH) (simp_all add: rep)
  have shift: "(\<Sum>k<Suc (Suc m). duration e s url opts k) =
      duration e s url opts 0 + (\<Sum>k<Suc m. duration e s url opts (Suc k))"
    by (rule sum.lessThan_Suc_shift)
  show ?case
    unfolding step IH nw dur shift by simp
qed

lemma loop_exhaust_now:
  "n = retries - attempt \<Longrightarrow> attempt \<le> retries \<Longrightarrow>
   (\<forall>k<n. attempt_fails (reply e s url opts k)) \<Longrightarrow>
   now (snd (fetchWithRetry_loop e url opts retries delay attempt s)) =
     now s + (\<Sum>k<n. duration e s url opts k) + (n - 1) * delay"
proof (induction n arbitrary: attempt s)
  case 0
  then have "\<not> attempt < retries" by simp
  then show ?case using 0
    by (subst fetchWithRetry_loop.simps) simp
next
  case (Suc n)
  define s2 where "s2 = console LError (attempt_failed_msg attempt) (snd (attempt_once e url opts s))"
  have lt: "attempt < retries" using Suc.prems(1) by simp
  have f0: "attempt_fails (reply e s url opts 0)" using Suc.prems(3) by simp
  have nf2: "nfetch s2 = Suc (nfetch s)" by (simp add: s2_def attempt_once_state)
  have nw2: "now s2 = now s + duration e s url opts 0" by (simp add: s2_def now_attempt_once)
  have shift: "(\<Sum>k<Suc n. duration e s url opts k) =
      duration e s url opts 0 + (\<Sum>k<n. duration e s url opts (Suc k))"
    by (rule sum.lessThan_Suc_shift)
  show ?case
  proof (cases "attempt < retries - 1")
    case True
    define s3 where "s3 = sleep delay s2"
    have step: "fetchWithRetry_loop e url opts retries delay attempt s =
        fetchWithRetry_loop e url opts retries delay (attempt + 1) s3"
      using loop_step_fail[OF lt f0] True by (simp add: Let_def s3_def s2_def)
    have nf: "nfetch s3 = Suc (nfetch s)" by (simp add: s3_def nf2)
    have rep: "\<And>k. reply e s3 url opts k = reply e s url opts (Suc k)"
      by (simp add: reply_def nf)
    have dur: "\<And>k. duration e s3 url opts k = duration e s url opts (Suc k)"
      by (simp add: duration_def nf)
    have nw: "now s3 = now s + duration e s url opts 0 + delay"
      by (simp add: s3_def nw2)
    have IH: "now (snd (fetchWithRetry_loop e url opts retries delay (attempt + 1) s3)) =
        now s3 + (\<Sum>k<n. duration e s3 url opts k) + (n - 1) * delay"
      using Suc.prems True by (intro Suc.IH) (simp_all add: rep)
    have n1: "1 \<le> n" using Suc.prems(1) True by simp
    then have m: "(Suc n - 1) * delay = delay + (n - 1) * delay"
      by (cases n) simp_all
    show ?thesis
      unfolding step IH nw dur shift m by simp
  next
    case False
    then have eq: "attempt + 1 = retries" using lt by simp
    have step: "fetchWithRetry_loop e url opts retries delay attempt s =
        fetchWithRetry_loop e url opts retries delay (attempt + 1) s2"
      using loop_step_fail[OF lt f0] False by (simp add: Let_def s2_def)
    have fin: "fetchWithRetry_loop e url opts retries delay (attempt + 1) s2 =
        (Inl (Error ''All retry attempts failed''), s2)"
      using eq by (subst fetchWithRetry_loop.simps) simp
    have n0: "n = 0" using Suc.prems(1) eq by simp
    show ?thesis
      unfolding step fin by (simp add: nw2 n0)
  qed
qed

lemma fetchWithRetry_success_now:
  assumes "m < retries" "\<forall>k<m. attempt_fails (reply e s url opts k)"
    "reply e s url opts m = Fulfilled r" "ok r"
  shows "now (snd (fetchWithRetry e url opts retries delay s)) =
     now s + (\<Sum>k<Suc m. duration e s url opts k) + m * delay"
  using loop_success_now[of 0 m retries e s url opts r delay] assms
  by (simp add: fetchWithRetry_def)

lemma fetchWithRetry_exhausted_now:
  assumes "\<forall>k<retries. attempt_fails (reply e s url opts k)"
  shows "now (snd (fetchWithRetry e url opts retries delay s)) =
     now s + (\<Sum>k<retries. duration e s url opts k) + (retries - 1) * delay"
  using loop_exhaust_now[of retries retries 0 e s url opts delay] assms
  by (simp add: fetchWithRetry_def)

text \<open>The copy of the retrying client in utils.js behaves as the one in background.js.\<close>

lemma utils_fetchWithRetry_loop_eq:
  "utils_fetchWithRetry_loop e url opts retries delay attempt s =
   fetchWithRetry_loop e url opts retries delay attempt s"
proof (induction e url opts retries delay attempt s rule: fetchWithRetry_loop.induct)
  case (1 e url opts retries delay attempt s)
  show ?case
  proof (cases "attempt < retries")
    case False
    then show ?thesis
      by (subst utils_fetchWithRetry_loop.simps, subst fetchWithRetry_loop.simps) simp
  next
    case True
    show ?thesis
    proof (cases "attempt_once e url opts s")
      case (Pair res s1)
      show ?thesis
      proof (cases res)
        case (Inr r)
        then show ?thesis using True Pair
          by (subst utils_fetchWithRetry_loop.simps, subst fetchWithRetry_loop.simps) simp
      next
        case (Inl err)
        then show ?thesis using True Pair "1.IH"[OF True Pair[symmetric] Inl refl refl]
          by (subst utils_fetchWithRetry_loop.simps, subst fetchWithRetry_loop.simps)
             (simp add: Let_def)
      qed
    qed
  qed
qed

lemma utils_fetchWithRetry_eq: "utils_fetchWithRetry = fetchWithRetry"
  by (intro ext) (simp add: utils_fetchWithRetry_def fetchWithRetry_def utils_fetchWithRetry_loop_eq)

lemma attempt_failed_msg_1: "attempt_failed_msg 0 = ''Attempt 1 failed:''"
  and attempt_failed_msg_2: "attempt_failed_msg (Suc 0) = ''Attempt 2 failed:''"
  and attempt_failed_msg_3: "attempt_failed_msg 2 = ''Attempt 3 failed:''"
  by (simp_all add: attempt_failed_msg_def show_nat.simps digit_char_def)

lemma upt_0_2: "[0..<2] = [0, Suc 0]"
  by (simp add: upt_rec)

text \<open>
  Claim C5. With \<open>retries = 3\<close>, when the three attempts fail (each request is rejected or
  answered with a response that is not \<^verbatim>\<open>ok\<close>), the call throws the error
  \<^verbatim>\<open>All retry attempts failed\<close>; it has made exactly three requests, with a delay after the
  first and the second only, and no fourth request.
\<close>

theorem fetchWithRetry_three_failures:
  assumes "\<forall>k<3. attempt_fails (reply e s url opts k)"
  shows "fst (fetchWithRetry e url opts 3 delay s) = Inl (Error ''All retry attempts failed'') \<and>
    issued s (snd (fetchWithRetry e url opts 3 delay s)) =
      [Fetch url opts, Console LError ''Attempt 1 failed:'', SetTimeout delay,
       Fetch url opts, Console LError ''Attempt 2 failed:'', SetTimeout delay,
       Fetch url opts, Console LError ''Attempt 3 failed:''] \<and>
    nfetch (snd (fetchWithRetry e url opts 3 delay s)) = nfetch s + 3"
  using fetchWithRetry_exhausted[OF assms, of delay]
  by (simp add: upt_0_2 attempt_failed_msg_1 attempt_failed_msg_2 attempt_failed_msg_3)

theorem fetchWithRetry_three_failures_witness:
  "fst (fetchWithRetry env_down ''https://x/api'' no_options 3 1000 (loaded Undefined 0))
     = Inl (Error ''All retry attempts failed'') \<and>
   length (fetches (issued (loaded Undefined 0)
     (snd (fetchWithRetry env_down ''https://x/api'' no_options 3 1000 (loaded Undefined 0))))) = 3 \<and>
   nfetch (snd (fetchWithRetry env_down ''https://x/api'' no_options 3 1000 (loaded Undefined 0))) = 3"
  using fetchWithRetry_three_failures[where e=env_down and s="loaded Undefined 0" and url="''https://x/api''"
      and opts=no_options and delay=1000]
  by (simp add: reply_def env_down_def fetches_Cons fetches_Nil loaded_def)

text \<open>
  Claim C1. A call of \<^verbatim>\<open>fetchWithRetry\<close> makes at most \<open>retries\<close> requests, and every timer
  it sets has the duration \<open>delay\<close>. When the first \<open>m\<close> attempts fail and attempt \<open>m\<close>
  (with \<open>m < retries\<close>) is answered with an \<^verbatim>\<open>ok\<close> response, that response is returned
  right after its request, each failed attempt before it was followed by one wait of
  \<open>delay\<close>, and the call has taken the time of its \<open>m + 1\<close> requests plus \<open>m\<close> times
  \<open>delay\<close>. When all \<open>retries\<close> attempts fail, one wait of \<open>delay\<close> follows each failed
  attempt but the last, after which nothing is waited for: the call has taken the time of
  its requests plus \<open>retries - 1\<close> times \<open>delay\<close>.
\<close>

theorem fetchWithRetry_attempts_and_delays:
  "let res = fetchWithRetry e url opts retries delay s;
       evs = issued s (snd res);
       failure = (\<lambda>i. [Fetch url opts, Console LError (attempt_failed_msg i), SetTimeout delay])
   in length (fetches evs) \<le> retries \<and>
      (\<forall>d. SetTimeout d \<in> set evs \<longrightarrow> d = delay) \<and>
      (\<forall>m r. m < retries \<and> (\<forall>k<m. attempt_fails (reply e s url opts k)) \<and>
             reply e s url opts m = Fulfilled r \<and> ok r \<longrightarrow>
             fst res = Inr r \<and> evs = concat (map failure [0..<m]) @ [Fetch url opts] \<and>
             now (snd res) = now s + (\<Sum>k<Suc m. duration e s url opts k) + m * delay) \<and>
      ((\<forall>k<retries. attempt_fails (reply e s url opts k)) \<longrightarrow>
         fst res = Inl (Error ''All retry attempts failed'') \<and>
         evs = concat (map failure [0..<retries - 1]) @
               (if 0 < retries
                then [Fetch url opts, Console LError (attempt_failed_msg (retries - 1))]
                else []) \<and>
         now (snd res) = now s + (\<Sum>k<retries. duration e s url opts k) + (retries - 1) * delay)"
  unfolding Let_def
  using fetchWithRetry_bounds[where s=s and e=e and url=url and opts=opts and retries=retries and delay=delay]
    fetchWithRetry_success(1,2)[where s=s and e=e and url=url and opts=opts and retries=retries and delay=delay]
    fetchWithRetry_exhausted(1,2)[where s=s and e=e and url=url and opts=opts and retries=retries and delay=delay]
    fetchWithRetry_success_now[where s=s and e=e and url=url and opts=opts and retries=retries and delay=delay]
    fetchWithRetry_exhausted_now[where s=s and e=e and url=url and opts=opts and retries=retries and delay=delay]
  by blast

theorem fetchWithRetry_attempts_and_delays_witness:
  "fst (fetchWithRetry env_third_time_slow ''https://x/api'' no_options 3 1000 (loaded Undefined 0))
     = Inr (response_ok (Obj [])) \<and>
   issued (loaded Undefined 0)
     (snd (fetchWithRetry env_third_time_slow ''https://x/api'' no_options 3 1000 (loaded Undefined 0))) =
     [Fetch ''https://x/api'' no_options, Console LError ''Attempt 1 failed:'', SetTimeout 1000,
      Fetch ''https://x/api'' no_options, Console LError ''Attempt 2 failed:'', SetTimeout 1000,
      Fetch ''https://x/api'' no_options] \<and>
   now (snd (fetchWithRetry env_third_time_slow ''https://x/api'' no_options 3 1000 (loaded Undefined 0)))
     = 2021"
proof -
  let ?s = "loaded Undefined 0"
  let ?u = "''https://x/api''"
  let ?e = "env_third_time_slow"
  have h: "(2::nat) < 3 \<and> (\<forall>k<2. attempt_fails (reply ?e ?s ?u no_options k)) \<and>
      reply ?e ?s ?u no_options 2 = Fulfilled (response_ok (Obj [])) \<and>
      ok (response_ok (Obj []))"
    by (simp add: reply_def env_third_time_slow_def ok_def response_ok_def loaded_def)
  have "\<forall>m r. m < 3 \<and> (\<forall>k<m. attempt_fails (reply ?e ?s ?u no_options k)) \<and>
             reply ?e ?s ?u no_options m = Fulfilled r \<and> ok r \<longrightarrow>
             fst (fetchWithRetry ?e ?u no_options 3 1000 ?s) = Inr r \<and>
             issued ?s (snd (fetchWithRetry ?e ?u no_options 3 1000 ?s)) =
               concat (map (\<lambda>i. [Fetch ?u no_options, Console LError (attempt_failed_msg i), SetTimeout 1000]) [0..<m])
                 @ [Fetch ?u no_options] \<and>
             now (snd (fetchWithRetry ?e ?u no_options 3 1000 ?s)) =
               now ?s + (\<Sum>k<Suc m. duration ?e ?s ?u no_options k) + m * 1000"
    using fetchWithRetry_attempts_and_delays[where e="?e" and url="?u" and opts=no_options
        and retries=3 and delay=1000 and s="?s"]
    unfolding Let_def by blast
  from this[rule_format, OF h] show ?thesis
    by (simp add: upt_0_2 attempt_failed_msg_1 attempt_failed_msg_2 duration_def
        env_third_time_slow_def loaded_def lessThan_Suc numeral_2_eq_2)
qed

section \<open>What a run leaves unchanged\<close>

named_theorems adv

lemma advances_refl [simp]: "advances s s"
  by (simp add: advances_def)

lemma advances_trans: "advances s s' \<Longrightarrow> advances s' s'' \<Longrightarrow> advances s s''"
  by (auto simp add: advances_def)

lemma advances_fields:
  assumes "advances s s'"
  shows "baseUrl s' = baseUrl s" "notificationLinks s' = notificationLinks s"
    "token_store s' = token_store s" "timers s' = timers s"
  using assms by (simp_all add: advances_def globals_def)

lemma advances_trace: "advances s s' \<Longrightarrow> trace s' = trace s @ issued s s'"
  by (auto simp add: advances_def issued_def prefix_def)

lemma issued_trans:
  assumes "prefix (trace s) (trace s')" "prefix (trace s') (trace s'')"
  shows "issued s s'' = issued s s' @ issued s' s''"
proof -
  from assms(1) obtain xs where xs: "trace s' = trace s @ xs" by (auto simp add: prefix_def)
  from assms(2) obtain ys where ys: "trace s'' = trace s' @ ys" by (auto simp add: prefix_def)
  show ?thesis by (simp add: issued_def xs ys)
qed

lemma issued_self [simp]: "issued s s = []"
  by (simp add: issued_def)

lemma advances_emit [adv]: "advances s s' \<Longrightarrow> advances s (emit ev s')"
  by (simp add: advances_def globals_def emit_def)

lemma advances_console [adv]: "advances s s' \<Longrightarrow> advances s (console l m s')"
  by (simp add: console_def advances_emit)

lemma advances_sleep [adv]: "advances s s' \<Longrightarrow> advances s (sleep d s')"
  by (simp add: advances_def globals_def sleep_def emit_def)

lemma advances_now [adv]: "advances s s' \<Longrightarrow> advances s (s'\<lparr>now := t\<rparr>)"
  by (simp add: advances_def globals_def)

lemma advances_await_fetch [adv]: "advances s s' \<Longrightarrow> advances s (snd (await_fetch e url opts s'))"
  by (simp add: advances_def globals_def await_fetch_def emit_def)

lemma advances_start_fetch [adv]: "advances s s' \<Longrightarrow> advances s (snd (start_fetch e url opts s'))"
  by (simp add: advances_def globals_def start_fetch_def emit_def)

lemma advances_attempt_once [adv]: "advances s s' \<Longrightarrow> advances s (snd (attempt_once e url opts s'))"
  by (simp add: attempt_once_state advances_def globals_def emit_def)

lemma advances_fetchWithRetry_loop:
  "advances s (snd (fetchWithRetry_loop e url opts retries delay attempt s))"
proof (induction e url opts retries delay attempt s rule: fetchWithRetry_loop.induct)
  case (1 e url opts retries delay attempt s)
  show ?case
  proof (cases "attempt < retries")
    case False
    then show ?thesis
      by (subst fetchWithRetry_loop.simps) simp
  next
    case True
    show ?thesis
    proof (cases "attempt_once e url opts s")
      case (Pair res s1)
      then have s1: "advances s s1"
        using advances_attempt_once[OF advances_refl, of s e url opts] by simp
      show ?thesis
      proof (cases res)
        case (Inr r)
        then show ?thesis using True Pair s1
          by (subst fetchWithRetry_loop.simps) simp
      next
        case (Inl err)
        let ?s2 = "console LError (attempt_failed_msg attempt) s1"
        let ?s3 = "if attempt < retries - 1 then sleep delay ?s2 else ?s2"
        have "advances s ?s3"
          using s1 by (simp add: advances_console advances_sleep)
        moreover have "advances ?s3 (snd (fetchWithRetry_loop e url opts retries delay (attempt + 1) ?s3))"
          by (rule "1.IH"[OF True Pair[symmetric] Inl refl refl])
        ultimately have "advances s (snd (fetchWithRetry_loop e url opts retries delay (attempt + 1) ?s3))"
          by (rule advances_trans)
        then show ?thesis using True Pair Inl
          by (subst fetchWithRetry_loop.simps) (simp add: Let_def)
      qed
    qed
  qed
qed

lemma advances_fetchWithRetry [adv]:
  "advances s s' \<Longrightarrow> advances s (snd (fetchWithRetry e url opts retries delay s'))"
  unfolding fetchWithRetry_def by (erule advances_trans) (rule advances_fetchWithRetry_loop)

lemma advances_fetchBaseUrl [adv]: "advances s s' \<Longrightarrow> advances s (snd (fetchBaseUrl e s'))"
  by (auto simp add: fetchBaseUrl_def split_beta split: sum.splits intro!: adv)

lemma advances_utils_fetchBaseUrl [adv]: "advances s s' \<Longrightarrow> advances s (snd (utils_fetchBaseUrl e s'))"
  by (auto simp add: utils_fetchBaseUrl_def split_beta split: sum.splits settled.splits intro!: adv)

lemma advances_getToken [adv]: "advances s s' \<Longrightarrow> advances s (snd (getToken s'))"
  by (simp add: getToken_def advances_emit)

lemma advances_getGeoLocation [adv]: "advances s s' \<Longrightarrow> advances s (snd (getGeoLocation e s'))"
  by (auto simp add: getGeoLocation_def split_beta split: sum.splits settled.splits intro!: adv)

lemma advances_heartbeat_tick [adv]: "advances s s' \<Longrightarrow> advances s (heartbeat_tick e token s')"
  by (auto simp add: heartbeat_tick_def split_beta split: sum.splits settled.splits intro!: adv)

lemma advances_testNodeLatency_catch [adv]:
  "advances s s' \<Longrightarrow> advances s (snd (testNodeLatency_catch e node s'))"
  by (auto simp add: testNodeLatency_catch_def split: sum.splits intro!: adv)

lemma advances_testNodeLatency [adv]:
  "advances s s' \<Longrightarrow> advances s (snd (testNodeLatency e node s'))"
  by (auto simp add: testNodeLatency_def split_beta Let_def split: sum.splits settled.splits intro!: adv)

lemma advances_reportTestResult_catch [adv]:
  "advances s s' \<Longrightarrow> advances s (snd (reportTestResult_catch e node s'))"
  by (auto simp add: reportTestResult_catch_def split: sum.splits intro!: adv)

lemma advances_reportTestResult [adv]:
  "advances s s' \<Longrightarrow> advances s (snd (reportTestResult e node latency s'))"
  by (auto simp add: reportTestResult_def split_beta split: sum.splits settled.splits intro!: adv)

lemma advances_node_loop [adv]:
  "advances s s' \<Longrightarrow> advances s (snd (node_loop e nodes s'))"
proof (induction nodes arbitrary: s')
  case Nil
  then show ?case by simp
next
  case (Cons node rest)
  show ?case
    using Cons.prems
    by (auto simp add: split_beta split: sum.splits intro!: adv Cons.IH)
qed

section \<open>Which attempts fail\<close>

lemma fetchWithRetry_cases:
  obtains (exhausted) "\<forall>k<retries. attempt_fails (reply e s url opts k)"
  | (success) m r where "m < retries" "\<forall>k<m. attempt_fails (reply e s url opts k)"
      "reply e s url opts m = Fulfilled r" "ok r"
proof -
  let ?P = "\<lambda>k. attempt_fails (reply e s url opts k)"
  from first_success_or_all_fail[of retries ?P] show ?thesis
  proof
    assume "\<forall>k<retries. ?P k" then show ?thesis by (rule exhausted)
  next
    assume "\<exists>m<retries. \<not> ?P m \<and> (\<forall>k<m. ?P k)"
    then obtain m where m: "m < retries" "\<not> ?P m" "\<forall>k<m. ?P k" by blast
    from m(2) obtain r where "reply e s url opts m = Fulfilled r" "ok r"
      unfolding attempt_fails_iff by blast
    with m show ?thesis by (intro success[of m r])
  qed
qed

lemma fetchWithRetry_Inr_ok:
  assumes "fst (fetchWithRetry e url opts retries delay s) = Inr r"
  shows "ok r"
proof (cases rule: fetchWithRetry_cases[of retries e s url opts])
  case exhausted
  then show ?thesis using fetchWithRetry_exhausted(1)[OF exhausted, of delay] assms by simp
next
  case (success m r')
  then show ?thesis using fetchWithRetry_success(1)[OF success, of delay] assms by simp
qed

lemma fetchWithRetry_fetch_count:
  "length (fetches (issued s (snd (fetchWithRetry e url opts retries delay s)))) =
     nfetch (snd (fetchWithRetry e url opts retries delay s)) - nfetch s"
proof (cases rule: fetchWithRetry_cases[of retries e s url opts])
  case exhausted
  show ?thesis
    unfolding fetchWithRetry_exhausted(2,3)[OF exhausted]
    by (simp add: fetches_append fetches_concat_failures fetches_Cons fetches_Nil)
next
  case (success m r')
  show ?thesis
    unfolding fetchWithRetry_success(2,3)[OF success]
    by (simp add: fetches_append fetches_concat_failures fetches_Cons fetches_Nil)
qed

lemma fetchWithRetry_retries_after_failure:
  assumes "attempt_fails (reply e s url opts 0)" "2 \<le> retries"
  shows "2 \<le> length (fetches (issued s (snd (fetchWithRetry e url opts retries delay s))))"
proof (cases rule: fetchWithRetry_cases[of retries e s url opts])
  case exhausted
  show ?thesis
    unfolding fetchWithRetry_fetch_count fetchWithRetry_exhausted(3)[OF exhausted]
    using assms(2) by simp
next
  case (success m r')
  have "m \<noteq> 0" using success(3,4) assms(1) by (cases "m = 0") auto
  then show ?thesis
    unfolding fetchWithRetry_fetch_count fetchWithRetry_success(3)[OF success]
    by simp
qed

text \<open>
  Claim C3, as stated, fails: a response with the status 304 is not \<^verbatim>\<open>ok\<close>, so the attempt
  throws, although the claim counts a 3xx status as a success; with three attempts allowed
  the request is made three times and the call ends in the terminal error.
\<close>

theorem redirect_status_is_a_failed_attempt:
  "\<not> claimed_attempt_fails (Fulfilled (response_status 304)) \<and>
   fst (attempt_once (env_status 304) ''https://x/api'' no_options (loaded Undefined 0)) =
     Inl (Error ''Request failed with status 304'') \<and>
   fst (fetchWithRetry (env_status 304) ''https://x/api'' no_options 3 1000 (loaded Undefined 0)) =
     Inl (Error ''All retry attempts failed'') \<and>
   length (fetches (issued (loaded Undefined 0)
     (snd (fetchWithRetry (env_status 304) ''https://x/api'' no_options 3 1000 (loaded Undefined 0))))) = 3"
proof -
  let ?s = "loaded Undefined 0"
  have all: "\<forall>k<3. attempt_fails (reply (env_status 304) ?s ''https://x/api'' no_options k)"
    by (simp add: reply_def env_status_def response_status_def ok_def)
  have 1: "fst (attempt_once (env_status 304) ''https://x/api'' no_options ?s) =
     Inl (Error ''Request failed with status 304'')"
    by (simp add: attempt_once_def await_fetch_def env_status_def response_status_def ok_def
        show_nat.simps digit_char_def)
  show ?thesis
    using 1 fetchWithRetry_exhausted(1,3)[OF all, of 1000]
    by (simp add: fetchWithRetry_fetch_count loaded_def response_status_def)
qed

text \<open>
  Claim C3, amended. An attempt fails exactly when the request is rejected (a network error)
  or the response's status is outside 200 to 299; so every response \<^verbatim>\<open>fetchWithRetry\<close>
  returns has a 2xx status, and a first answer with a 3xx status is followed by a second
  request when at least two attempts are allowed.
\<close>

theorem attempt_fails_unless_2xx:
  "((\<exists>err. fst (attempt_once e url opts s) = Inl err) \<longleftrightarrow>
      (\<exists>err. reply e s url opts 0 = Rejected err) \<or>
      (\<exists>r. reply e s url opts 0 = Fulfilled r \<and> \<not> (200 \<le> status r \<and> status r \<le> 299))) \<and>
   (\<forall>r. fst (fetchWithRetry e url opts retries delay s) = Inr r \<longrightarrow>
        200 \<le> status r \<and> status r \<le> 299) \<and>
   (\<forall>r. reply e s url opts 0 = Fulfilled r \<and> 300 \<le> status r \<and> status r \<le> 399 \<and> 2 \<le> retries \<longrightarrow>
        2 \<le> length (fetches (issued s (snd (fetchWithRetry e url opts retries delay s)))))"
proof (intro conjI allI impI)
  show "(\<exists>err. fst (attempt_once e url opts s) = Inl err) \<longleftrightarrow>
      (\<exists>err. reply e s url opts 0 = Rejected err) \<or>
      (\<exists>r. reply e s url opts 0 = Fulfilled r \<and> \<not> (200 \<le> status r \<and> status r \<le> 299))"
    unfolding attempt_once_Inl by (cases "reply e s url opts 0") (simp_all add: ok_def)
next
  fix r assume "fst (fetchWithRetry e url opts retries delay s) = Inr r"
  then have "ok r" by (rule fetchWithRetry_Inr_ok)
  then show "200 \<le> status r" "status r \<le> 299" by (simp_all add: ok_def)
next
  fix r assume a: "reply e s url opts 0 = Fulfilled r \<and> 300 \<le> status r \<and> status r \<le> 399 \<and> 2 \<le> retries"
  then have "attempt_fails (reply e s url opts 0)" by (simp add: ok_def)
  then show "2 \<le> length (fetches (issued s (snd (fetchWithRetry e url opts retries delay s))))"
    using a by (intro fetchWithRetry_retries_after_failure) simp_all
qed

theorem attempt_fails_unless_2xx_witness:
  "(\<exists>err. fst (attempt_once (env_status 304) ''https://x/api'' no_options (loaded Undefined 0)) = Inl err) \<and>
   2 \<le> length (fetches (issued (loaded Undefined 0)
     (snd (fetchWithRetry (env_status 304) ''https://x/api'' no_options 3 1000 (loaded Undefined 0)))))"
proof -
  let ?s = "loaded Undefined 0"
  have h: "reply (env_status 304) ?s ''https://x/api'' no_options 0 = Fulfilled (response_status 304) \<and>
      300 \<le> status (response_status 304) \<and> status (response_status 304) \<le> 399 \<and> (2::nat) \<le> 3"
    by (simp add: reply_def env_status_def response_status_def loaded_def)
  note T = attempt_fails_unless_2xx[where e="env_status 304" and url="''https://x/api''" and opts=no_options
      and s="?s" and retries=3 and delay=1000]
  have 1: "\<exists>err. fst (attempt_once (env_status 304) ''https://x/api'' no_options ?s) = Inl err"
    using T h by (simp add: response_status_def)
  have 2: "2 \<le> length (fetches (issued ?s
     (snd (fetchWithRetry (env_status 304) ''https://x/api'' no_options 3 1000 ?s))))"
    using T h by blast
  show ?thesis using 1 2 by simp
qed

section \<open>The base URL\<close>

lemma field_emit [simp]:
  "baseUrl (emit ev s) = baseUrl s" "notificationLinks (emit ev s) = notificationLinks s"
  "token_store (emit ev s) = token_store s" "timers (emit ev s) = timers s"
  "now (emit ev s) = now s"
  by (simp_all add: emit_def)

lemma field_console [simp]:
  "baseUrl (console l m s) = baseUrl s" "notificationLinks (console l m s) = notificationLinks s"
  "token_store (console l m s) = token_store s" "timers (console l m s) = timers s"
  "now (console l m s) = now s"
  by (simp_all add: console_def)

lemma truthy_fallback_url [simp]: "truthy fallback_url"
  by (simp add: fallback_url_def)

lemma fetchBaseUrl_truthy: "truthy (fst (fetchBaseUrl e s))"
  by (simp add: fetchBaseUrl_def split_beta split: sum.splits)

lemma fetchBaseUrl_network_failure:
  "fst (fetchWithRetry e config_url no_options 3 1000 s) = Inl err \<Longrightarrow>
   fst (fetchBaseUrl e s) = fallback_url"
  by (simp add: fetchBaseUrl_def split_beta)

lemma fetchBaseUrl_malformed:
  "fst (fetchWithRetry e config_url no_options 3 1000 s) = Inr r \<Longrightarrow> json_body r = None \<Longrightarrow>
   fst (fetchBaseUrl e s) = fallback_url"
  by (simp add: fetchBaseUrl_def split_beta json_def)

lemma fetchBaseUrl_missing_field:
  "fst (fetchWithRetry e config_url no_options 3 1000 s) = Inr r \<Longrightarrow> json_body r = Some data \<Longrightarrow>
   get_prop data ''baseUrl'' = Inr Undefined \<or> get_prop data ''baseUrl'' = Inl err \<Longrightarrow>
   fst (fetchBaseUrl e s) = fallback_url"
  by (auto simp add: fetchBaseUrl_def split_beta json_def)

lemma fetchBaseUrl_value:
  "fst (fetchBaseUrl e s) = fallback_url \<or>
   (\<exists>r data. fst (fetchWithRetry e config_url no_options 3 1000 s) = Inr r \<and>
      json_body r = Some data \<and> get_prop data ''baseUrl'' = Inr (fst (fetchBaseUrl e s)))"
  by (auto simp add: fetchBaseUrl_def split_beta json_def split: sum.splits option.splits)

lemma fetchBaseUrl_well_formed:
  "fst (fetchWithRetry e config_url no_options 3 1000 s) = Inr r \<Longrightarrow>
   json_body r = Some (Obj kvs) \<Longrightarrow> map_of kvs ''baseUrl'' = Some b \<Longrightarrow> truthy b \<Longrightarrow>
   fst (fetchBaseUrl e s) = b"
  by (simp add: fetchBaseUrl_def split_beta json_def)

text \<open>
  Claim C2 on \<^verbatim>\<open>fetchBaseUrl\<close> of utils.js: when the endpoint answers 200 with the payload
  \<^verbatim>\<open>{}\<close>, which lacks \<^verbatim>\<open>baseUrl\<close>, the function returns \<^verbatim>\<open>undefined\<close>, not the fallback
  (\<^verbatim>\<open>fetchBaseUrl\<close> of background.js returns the fallback there, as the lemmas above and
  \<open>fetchBaseUrl_missing_field_example\<close> below show).
\<close>

theorem utils_fetchBaseUrl_missing_field_undefined:
  "fst (utils_fetchBaseUrl (env_json (Obj [])) (loaded Undefined 0)) = Undefined"
  by (simp add: utils_fetchBaseUrl_def await_fetch_def env_json_def response_ok_def ok_def json_def)

lemma utils_fetchBaseUrl_without_field:
  "reply e s ''https://new-backend-api.com/getBaseUrl'' no_options 0 = Fulfilled r \<Longrightarrow> ok r \<Longrightarrow>
   json_body r = Some (Obj kvs) \<Longrightarrow> map_of kvs ''baseUrl'' = None \<Longrightarrow>
   fst (utils_fetchBaseUrl e s) = Undefined"
  by (simp add: utils_fetchBaseUrl_def await_fetch_def reply_def json_def)

lemma fetchBaseUrl_missing_field_example:
  "fst (fetchBaseUrl (env_json (Obj [])) (loaded Undefined 0)) = fallback_url"
proof -
  let ?s = "loaded Undefined 0"
  have "(0::nat) < 3" "\<forall>k<0. attempt_fails (reply (env_json (Obj [])) ?s config_url no_options k)"
    "reply (env_json (Obj [])) ?s config_url no_options 0 = Fulfilled (response_ok (Obj []))"
    "ok (response_ok (Obj []))"
    by (simp_all add: reply_def env_json_def response_ok_def ok_def)
  from fetchWithRetry_success(1)[OF this, of 1000]
  show ?thesis
    by (rule fetchBaseUrl_missing_field[where data="Obj []"]) (simp_all add: response_ok_def)
qed


lemma ensureBaseUrl_truthy: "truthy (baseUrl (ensureBaseUrl e s))"
  by (simp add: ensureBaseUrl_def split_beta fetchBaseUrl_truthy)

lemma ensureBaseUrl_resolved: "truthy (baseUrl s) \<Longrightarrow> ensureBaseUrl e s = s"
  by (simp add: ensureBaseUrl_def)

lemma ensureBaseUrl_unresolved: "\<not> truthy (baseUrl s) \<Longrightarrow> baseUrl (ensureBaseUrl e s) = fst (fetchBaseUrl e s)"
  by (simp add: ensureBaseUrl_def split_beta)

lemma refresh_tick_truthy: "truthy (baseUrl (refresh_tick e s))"
  by (simp add: refresh_tick_def split_beta fetchBaseUrl_truthy)

lemma advances_baseUrl: "advances s s' \<Longrightarrow> baseUrl s' = baseUrl s"
  by (rule advances_fields)

lemma baseUrl_showNotification [simp]: "baseUrl (showNotification m l s) = baseUrl s"
  by (simp add: showNotification_def)

lemma baseUrl_runNodeTests: "baseUrl (runNodeTests e s) = baseUrl (ensureBaseUrl e s)"
  by (auto simp add: runNodeTests_def Let_def split_beta split: sum.splits
      intro!: advances_baseUrl adv)

lemma baseUrl_checkForRewards: "baseUrl (checkForRewards e s) = baseUrl (ensureBaseUrl e s)"
  by (auto simp add: checkForRewards_def Let_def split_beta split: sum.splits settled.splits
      intro!: advances_baseUrl adv)

lemma baseUrl_startHeartbeat: "baseUrl (startHeartbeat e s) = baseUrl (ensureBaseUrl e s)"
  by (auto simp add: startHeartbeat_def Let_def split_beta split: sum.splits settled.splits
      intro!: advances_baseUrl adv)

lemma baseUrl_onButtonClicked [simp]: "baseUrl (onButtonClicked i b s) = baseUrl s"
  by (simp add: onButtonClicked_def split: option.splits)

lemma fire_keeps_resolved:
  assumes r: "truthy (baseUrl s)"
  shows "truthy (baseUrl (fire e t s))"
proof (cases t)
  case Installed
  then show ?thesis by (simp add: baseUrl_startHeartbeat ensureBaseUrl_truthy)
next
  case (Alarm name)
  then show ?thesis using r
    by (simp add: onAlarm_def baseUrl_runNodeTests baseUrl_checkForRewards ensureBaseUrl_truthy)
next
  case (Timer i)
  show ?thesis
  proof (cases "snd (timers s ! i)")
    case (HeartbeatTick token)
    then show ?thesis using Timer r
      by (simp add: run_callback_def advances_baseUrl[OF advances_heartbeat_tick[OF advances_refl]])
  next
    case RefreshTick
    then show ?thesis using Timer r by (simp add: run_callback_def refresh_tick_truthy)
  qed
next
  case (ButtonClicked i b)
  then show ?thesis using r by simp
next
  case (StorageSet v)
  then show ?thesis using r by simp
qed

lemma run_keeps_resolved: "truthy (baseUrl s) \<Longrightarrow> truthy (baseUrl (run e ts s))"
  by (induction ts arbitrary: s) (simp_all add: fire_keeps_resolved)

lemma refresh_tick_value: "baseUrl (refresh_tick e s) = fst (fetchBaseUrl e s)"
  by (simp add: refresh_tick_def split_beta)

lemma fetchBaseUrl_backend_value:
  assumes "fst (fetchWithRetry e config_url no_options 3 1000 s) = Inr r" "json_body r = Some data"
    "get_prop data ''baseUrl'' = Inr b" "truthy b"
  shows "fst (fetchBaseUrl e s) = b"
proof -
  have "truthy data" using assms(3,4) by (cases data) auto
  then show ?thesis using assms by (simp add: fetchBaseUrl_def split_beta json_def)
qed

lemma fetchBaseUrl_no_backend_value:
  assumes "fst (fetchWithRetry e config_url no_options 3 1000 s) = Inr r" "json_body r = Some data"
    "\<forall>b. get_prop data ''baseUrl'' = Inr b \<longrightarrow> \<not> truthy b"
  shows "fst (fetchBaseUrl e s) = fallback_url"
  using assms by (auto simp add: fetchBaseUrl_def split_beta json_def split: sum.splits)

lemma baseUrl_fire:
  assumes r: "truthy (baseUrl s)"
  shows "baseUrl (fire e t s) =
    (case t of
       Timer i \<Rightarrow>
         if i < length (timers s) \<and> snd (timers s ! i) = RefreshTick then fst (fetchBaseUrl e s)
         else baseUrl s
     | _ \<Rightarrow> baseUrl s)"
proof (cases t)
  case Installed
  then show ?thesis using r by (simp add: baseUrl_startHeartbeat ensureBaseUrl_resolved)
next
  case (Alarm name)
  have "truthy (baseUrl (console l m s))" for l m using r by simp
  then show ?thesis using Alarm
    by (simp add: onAlarm_def baseUrl_runNodeTests baseUrl_checkForRewards ensureBaseUrl_resolved)
next
  case (Timer i)
  show ?thesis
  proof (cases "snd (timers s ! i)")
    case (HeartbeatTick token)
    then show ?thesis using Timer
      by (simp add: run_callback_def advances_baseUrl[OF advances_heartbeat_tick[OF advances_refl]])
  next
    case RefreshTick
    then show ?thesis using Timer by (simp add: run_callback_def refresh_tick_value)
  qed
next
  case (ButtonClicked i b)
  then show ?thesis by simp
next
  case (StorageSet v)
  then show ?thesis by simp
qed

text \<open>
  Claim C6. After \<^verbatim>\<open>ensureBaseUrl\<close> the cached base URL is set (truthy), and
  \<^verbatim>\<open>ensureBaseUrl\<close> in the resolved state returns the state as it is. The value an
  \<^verbatim>\<open>ensureBaseUrl\<close> in the unresolved state stores, and the value a refresh stores, is the
  result of the resolution: the \<^verbatim>\<open>baseUrl\<close> field of the payload when the retrying client
  succeeded and the field is there and truthy, and the fallback in every other case (the
  client failed, the body is no JSON, the field is missing or falsy). In the resolved state a
  trigger leaves the cached value as it is, except the refresh timer, which stores the result
  of a new resolution; so the base URL stays set whatever the platform fires.
\<close>

theorem baseUrl_never_unset:
  "truthy (baseUrl (ensureBaseUrl e s)) \<and>
   (truthy (baseUrl s) \<longrightarrow> ensureBaseUrl e s = s) \<and>
   (\<not> truthy (baseUrl s) \<longrightarrow> baseUrl (ensureBaseUrl e s) = fst (fetchBaseUrl e s)) \<and>
   baseUrl (refresh_tick e s) = fst (fetchBaseUrl e s) \<and>
   truthy (fst (fetchBaseUrl e s)) \<and>
   (\<forall>r data b. fst (fetchWithRetry e config_url no_options 3 1000 s) = Inr r \<and>
       json_body r = Some data \<and> get_prop data ''baseUrl'' = Inr b \<and> truthy b \<longrightarrow>
       fst (fetchBaseUrl e s) = b) \<and>
   (\<forall>r data. fst (fetchWithRetry e config_url no_options 3 1000 s) = Inr r \<and>
       json_body r = Some data \<and> (\<forall>b. get_prop data ''baseUrl'' = Inr b \<longrightarrow> \<not> truthy b) \<longrightarrow>
       fst (fetchBaseUrl e s) = fallback_url) \<and>
   (\<forall>r. fst (fetchWithRetry e config_url no_options 3 1000 s) = Inr r \<and> json_body r = None \<longrightarrow>
       fst (fetchBaseUrl e s) = fallback_url) \<and>
   (\<forall>err. fst (fetchWithRetry e config_url no_options 3 1000 s) = Inl err \<longrightarrow>
       fst (fetchBaseUrl e s) = fallback_url) \<and>
   (truthy (baseUrl s) \<longrightarrow>
      baseUrl (fire e t s) =
        (case t of
           Timer i \<Rightarrow>
             if i < length (timers s) \<and> snd (timers s ! i) = RefreshTick
             then fst (fetchBaseUrl e s) else baseUrl s
         | _ \<Rightarrow> baseUrl s)) \<and>
   (truthy (baseUrl s) \<longrightarrow> truthy (baseUrl (run e ts s)))"
proof (intro conjI impI allI)
  show "truthy (baseUrl (ensureBaseUrl e s))" by (rule ensureBaseUrl_truthy)
  show "ensureBaseUrl e s = s" if "truthy (baseUrl s)" using that by (rule ensureBaseUrl_resolved)
  show "baseUrl (ensureBaseUrl e s) = fst (fetchBaseUrl e s)" if "\<not> truthy (baseUrl s)"
    using that by (rule ensureBaseUrl_unresolved)
  show "baseUrl (refresh_tick e s) = fst (fetchBaseUrl e s)" by (rule refresh_tick_value)
  show "truthy (fst (fetchBaseUrl e s))" by (rule fetchBaseUrl_truthy)
  show "fst (fetchBaseUrl e s) = b"
    if "fst (fetchWithRetry e config_url no_options 3 1000 s) = Inr r \<and>
       json_body r = Some data \<and> get_prop data ''baseUrl'' = Inr b \<and> truthy b" for r data b
    using that by (intro fetchBaseUrl_backend_value[of e s r data b]) simp_all
  show "fst (fetchBaseUrl e s) = fallback_url"
    if "fst (fetchWithRetry e config_url no_options 3 1000 s) = Inr r \<and>
       json_body r = Some data \<and> (\<forall>b. get_prop data ''baseUrl'' = Inr b \<longrightarrow> \<not> truthy b)" for r data
    using that by (intro fetchBaseUrl_no_backend_value[of e s r data]) simp_all
  show "fst (fetchBaseUrl e s) = fallback_url"
    if "fst (fetchWithRetry e config_url no_options 3 1000 s) = Inr r \<and> json_body r = None" for r
    using that by (intro fetchBaseUrl_malformed[of e s r]) simp_all
  show "fst (fetchBaseUrl e s) = fallback_url"
    if "fst (fetchWithRetry e config_url no_options 3 1000 s) = Inl err" for err
    using that by (rule fetchBaseUrl_network_failure)
  show "baseUrl (fire e t s) =
        (case t of
           Timer i \<Rightarrow>
             if i < length (timers s) \<and> snd (timers s ! i) = RefreshTick
             then fst (fetchBaseUrl e s) else baseUrl s
         | _ \<Rightarrow> baseUrl s)" if "truthy (baseUrl s)"
    using that by (rule baseUrl_fire)
  show "truthy (baseUrl (run e ts s))" if "truthy (baseUrl s)"
    using that by (rule run_keeps_resolved)
qed

theorem baseUrl_never_unset_witness:
  "baseUrl (ensureBaseUrl (env_json (Obj [(''baseUrl'', Str ''https://x'')])) (loaded Undefined 0))
     = Str ''https://x'' \<and>
   baseUrl (refresh_tick (env_json (Obj [(''baseUrl'', Str ''https://x'')])) (loaded Undefined 0))
     = Str ''https://x'' \<and>
   baseUrl (ensureBaseUrl (env_json (Obj [])) (loaded Undefined 0)) = fallback_url \<and>
   ensureBaseUrl (env_json (Obj [(''baseUrl'', Str ''https://x'')]))
     (ensureBaseUrl (env_json (Obj [(''baseUrl'', Str ''https://x'')])) (loaded Undefined 0))
     = ensureBaseUrl (env_json (Obj [(''baseUrl'', Str ''https://x'')])) (loaded Undefined 0) \<and>
   truthy (baseUrl (run (env_json (Obj [(''baseUrl'', Str ''https://x'')]))
     [Timer 0, Alarm ''dailyRewardsCheck'']
     (ensureBaseUrl (env_json (Obj [(''baseUrl'', Str ''https://x'')])) (loaded Undefined 0))))"
proof -
  let ?e = "env_json (Obj [(''baseUrl'', Str ''https://x'')])"
  let ?ee = "env_json (Obj [])"
  let ?s = "loaded Undefined 0"
  let ?r = "response_ok (Obj [(''baseUrl'', Str ''https://x'')])"
  let ?rr = "response_ok (Obj [])"
  note T0 = baseUrl_never_unset[where e="?e" and s="?s" and ts="[]" and t=Installed]
  note T1 = baseUrl_never_unset[where e="?e" and s="ensureBaseUrl ?e ?s"
      and ts="[Timer 0, Alarm ''dailyRewardsCheck'']" and t=Installed]
  note T2 = baseUrl_never_unset[where e="?ee" and s="?s" and ts="[]" and t=Installed]
  have nt: "\<not> truthy (baseUrl ?s)" by (simp add: loaded_def)
  have "(0::nat) < 3" "\<forall>k<0. attempt_fails (reply ?e ?s config_url no_options k)"
    "reply ?e ?s config_url no_options 0 = Fulfilled ?r" "ok ?r"
    by (simp_all add: reply_def env_json_def response_ok_def ok_def)
  from fetchWithRetry_success(1)[OF this, of 1000]
  have f: "fst (fetchWithRetry ?e config_url no_options 3 1000 ?s) = Inr ?r" .
  have h: "fst (fetchWithRetry ?e config_url no_options 3 1000 ?s) = Inr ?r \<and>
       json_body ?r = Some (Obj [(''baseUrl'', Str ''https://x'')]) \<and>
       get_prop (Obj [(''baseUrl'', Str ''https://x'')]) ''baseUrl'' = Inr (Str ''https://x'') \<and>
       truthy (Str ''https://x'')"
    using f by (simp add: response_ok_def)
  have v: "fst (fetchBaseUrl ?e ?s) = Str ''https://x''"
    using T0 h by blast
  have "(0::nat) < 3" "\<forall>k<0. attempt_fails (reply ?ee ?s config_url no_options k)"
    "reply ?ee ?s config_url no_options 0 = Fulfilled ?rr" "ok ?rr"
    by (simp_all add: reply_def env_json_def response_ok_def ok_def)
  from fetchWithRetry_success(1)[OF this, of 1000]
  have f0: "fst (fetchWithRetry ?ee config_url no_options 3 1000 ?s) = Inr ?rr" .
  have h0: "fst (fetchWithRetry ?ee config_url no_options 3 1000 ?s) = Inr ?rr \<and>
       json_body ?rr = Some (Obj []) \<and>
       (\<forall>b. get_prop (Obj []) ''baseUrl'' = Inr b \<longrightarrow> \<not> truthy b)"
  proof (intro conjI allI impI)
    show "fst (fetchWithRetry ?ee config_url no_options 3 1000 ?s) = Inr ?rr" by (rule f0)
    show "json_body ?rr = Some (Obj [])" by (simp add: response_ok_def)
    show "\<not> truthy b" if "get_prop (Obj []) ''baseUrl'' = Inr b" for b
      using that by auto
  qed
  have v0: "fst (fetchBaseUrl ?ee ?s) = fallback_url"
    using T2 h0 by blast
  have 1: "baseUrl (ensureBaseUrl ?e ?s) = Str ''https://x''"
    using T0 nt v by simp
  have refreshed: "baseUrl (refresh_tick ?e ?s) = Str ''https://x''"
    using T0 v by simp
  have fell_back: "baseUrl (ensureBaseUrl ?ee ?s) = fallback_url"
    using T2 nt v0 by simp
  have tr: "truthy (baseUrl (ensureBaseUrl ?e ?s))" using T0 by blast
  have 2: "ensureBaseUrl ?e (ensureBaseUrl ?e ?s) = ensureBaseUrl ?e ?s"
    using T1 tr by blast
  have 3: "truthy (baseUrl (run ?e [Timer 0, Alarm ''dailyRewardsCheck''] (ensureBaseUrl ?e ?s)))"
    using T1 tr by blast
  show ?thesis using 1 refreshed fell_back 2 3 by (intro conjI)
qed

section \<open>Running without a token\<close>

lemma advances_prefix: "advances s s' \<Longrightarrow> prefix (trace s) (trace s')"
  by (simp add: advances_def)

lemma issued_emit: "prefix (trace s0) (trace s) \<Longrightarrow> issued s0 (emit ev s) = issued s0 s @ [ev]"
  by (auto simp add: issued_def prefix_def)

lemma issued_console:
  "prefix (trace s0) (trace s) \<Longrightarrow> issued s0 (console l m s) = issued s0 s @ [Console l m]"
  by (simp add: console_def issued_emit)

lemma issued_baseUrl_update [simp]: "issued s0 (s\<lparr>baseUrl := b\<rparr>) = issued s0 s"
  by (simp add: issued_def)

lemma issued_timers_update [simp]: "issued s0 (s\<lparr>timers := b\<rparr>) = issued s0 s"
  by (simp add: issued_def)

lemma issued_notificationLinks_update [simp]: "issued s0 (s\<lparr>notificationLinks := b\<rparr>) = issued s0 s"
  by (simp add: issued_def)

lemma prefix_fetchBaseUrl: "prefix (trace s) (trace (snd (fetchBaseUrl e s)))"
  by (rule advances_prefix[OF advances_fetchBaseUrl[OF advances_refl]])

lemma prefix_fetchWithRetry: "prefix (trace s) (trace (snd (fetchWithRetry e url opts retries delay s)))"
  by (rule advances_prefix[OF advances_fetchWithRetry[OF advances_refl]])

lemma fetches_issued_fetchBaseUrl:
  "fetches (issued s (snd (fetchBaseUrl e s))) =
   fetches (issued s (snd (fetchWithRetry e config_url no_options 3 1000 s)))"
  by (simp add: fetchBaseUrl_def split_beta issued_console prefix_fetchWithRetry fetches_append
      fetches_Cons fetches_Nil split: sum.splits)

lemma storage_issued_fetchBaseUrl:
  "filter is_StorageGet (issued s (snd (fetchBaseUrl e s))) =
   filter is_StorageGet (issued s (snd (fetchWithRetry e config_url no_options 3 1000 s)))"
  by (simp add: fetchBaseUrl_def split_beta issued_console prefix_fetchWithRetry split: sum.splits)

lemma ensureBaseUrl_unfold:
  "\<not> truthy (baseUrl s) \<Longrightarrow>
   ensureBaseUrl e s = console LLog ''Base URL set to:''
     ((snd (fetchBaseUrl e s))\<lparr>baseUrl := fst (fetchBaseUrl e s)\<rparr>)"
  by (simp add: ensureBaseUrl_def split_beta)

lemma trace_baseUrl_update [simp]: "trace (s\<lparr>baseUrl := b\<rparr>) = trace s"
  by simp

lemma prefix_ensureBaseUrl: "prefix (trace s) (trace (ensureBaseUrl e s))"
proof (cases "truthy (baseUrl s)")
  case True
  then show ?thesis by (simp add: ensureBaseUrl_resolved)
next
  case False
  have "prefix (trace s) (trace (snd (fetchBaseUrl e s)))" by (rule prefix_fetchBaseUrl)
  then show ?thesis
    unfolding ensureBaseUrl_unfold[OF False] by (auto simp add: prefix_def)
qed

lemma issued_ensureBaseUrl:
  "\<not> truthy (baseUrl s) \<Longrightarrow>
   issued s (ensureBaseUrl e s) = issued s (snd (fetchBaseUrl e s)) @ [Console LLog ''Base URL set to:'']"
  unfolding issued_def
  using prefix_fetchBaseUrl[of s e] by (auto simp add: ensureBaseUrl_unfold prefix_def)

lemma fetches_issued_ensureBaseUrl:
  "fetches (issued s (ensureBaseUrl e s)) =
   (if truthy (baseUrl s) then []
    else fetches (issued s (snd (fetchWithRetry e config_url no_options 3 1000 s))))"
  by (simp add: ensureBaseUrl_resolved fetches_Nil issued_ensureBaseUrl fetches_append
      fetches_issued_fetchBaseUrl fetches_Cons)

lemma fetches_issued_fetchWithRetry:
  "fetches (issued s (snd (fetchWithRetry e url opts retries delay s))) =
   replicate (length (fetches (issued s (snd (fetchWithRetry e url opts retries delay s)))))
     (Fetch url opts)"
proof (cases rule: fetchWithRetry_cases[of retries e s url opts])
  case exhausted
  have "0 < retries \<Longrightarrow> replicate (retries - Suc 0) (Fetch url opts) @ [Fetch url opts] =
      replicate retries (Fetch url opts)"
    by (cases retries) (simp_all add: replicate_append_same)
  then show ?thesis
    unfolding fetchWithRetry_exhausted(2)[OF exhausted]
    by (simp add: fetches_append fetches_concat_failures fetches_Cons fetches_Nil)
next
  case (success m r')
  show ?thesis
    unfolding fetchWithRetry_success(2)[OF success]
    by (simp add: fetches_append fetches_concat_failures fetches_Cons fetches_Nil
        replicate_append_same)
qed

lemma fetchWithRetry_at_least_one:
  "0 < retries \<Longrightarrow> 1 \<le> length (fetches (issued s (snd (fetchWithRetry e url opts retries delay s))))"
proof (cases rule: fetchWithRetry_cases[of retries e s url opts])
  case exhausted
  assume "0 < retries"
  then show ?thesis
    unfolding fetchWithRetry_fetch_count fetchWithRetry_exhausted(3)[OF exhausted] by simp
next
  case (success m r')
  show ?thesis
    unfolding fetchWithRetry_fetch_count fetchWithRetry_success(3)[OF success] by simp
qed

lemma token_store_ensureBaseUrl [simp]: "token_store (ensureBaseUrl e s) = token_store s"
  using advances_fields(3)[OF advances_fetchBaseUrl[OF advances_refl, of s e]]
  by (simp add: ensureBaseUrl_def split_beta)

lemma timers_ensureBaseUrl [simp]: "timers (ensureBaseUrl e s) = timers s"
  using advances_fields(4)[OF advances_fetchBaseUrl[OF advances_refl, of s e]]
  by (simp add: ensureBaseUrl_def split_beta)

lemma notificationLinks_ensureBaseUrl [simp]: "notificationLinks (ensureBaseUrl e s) = notificationLinks s"
  using advances_fields(2)[OF advances_fetchBaseUrl[OF advances_refl, of s e]]
  by (simp add: ensureBaseUrl_def split_beta)

lemma reportTestResult_no_token:
  "\<not> truthy (token_store s) \<Longrightarrow>
   reportTestResult e node latency s =
     (Inr (), console LWarn ''No token found. Skipping result reporting.'' (emit (StorageGet ''token'') s))"
  by (simp add: reportTestResult_def getToken_def)

lemma startHeartbeat_no_token:
  "\<not> truthy (token_store s) \<Longrightarrow>
   startHeartbeat e s =
     console LWarn ''No token found. Skipping heartbeat.'' (emit (StorageGet ''token'') (ensureBaseUrl e s))"
  by (simp add: startHeartbeat_def getToken_def)

lemma issued_startHeartbeat_no_token:
  "\<not> truthy (token_store s) \<Longrightarrow>
   issued s (startHeartbeat e s) =
     issued s (ensureBaseUrl e s) @
       [StorageGet ''token'', Console LWarn ''No token found. Skipping heartbeat.'']"
  using prefix_ensureBaseUrl[of s e]
  by (auto simp add: startHeartbeat_no_token issued_def console_def emit_def prefix_def)

text \<open>
  Claim C4, as stated, fails for \<^verbatim>\<open>startHeartbeat\<close>: it awaits \<^verbatim>\<open>ensureBaseUrl\<close> before it
  looks for the token. Right after the module is loaded, with no token stored and the
  backend unreachable, it makes three requests to the configuration endpoint.
\<close>

theorem startHeartbeat_without_token_resolves_base_url:
  "\<not> truthy (token_store (loaded Undefined 0)) \<and>
   fetches (issued (loaded Undefined 0) (startHeartbeat env_down (loaded Undefined 0))) =
     [Fetch config_url no_options, Fetch config_url no_options, Fetch config_url no_options]"
proof -
  let ?s = "loaded Undefined 0"
  have nt: "\<not> truthy (token_store ?s)" "\<not> truthy (baseUrl ?s)" by (simp_all add: loaded_def)
  have all: "\<forall>k<3. attempt_fails (reply env_down ?s config_url no_options k)"
    by (simp add: reply_def env_down_def)
  have "length (fetches (issued ?s (snd (fetchWithRetry env_down config_url no_options 3 1000 ?s)))) = 3"
    unfolding fetchWithRetry_fetch_count fetchWithRetry_exhausted(3)[OF all] by simp
  then have "fetches (issued ?s (snd (fetchWithRetry env_down config_url no_options 3 1000 ?s))) =
     replicate 3 (Fetch config_url no_options)"
    using fetches_issued_fetchWithRetry[of ?s env_down config_url no_options 3 1000] by simp
  then show ?thesis
    using nt
    by (simp add: issued_startHeartbeat_no_token fetches_append fetches_issued_ensureBaseUrl
        fetches_Cons fetches_Nil numeral_3_eq_3)
qed

text \<open>
  Claim C4, amended. With no token stored, \<^verbatim>\<open>reportTestResult\<close> returns normally after
  reading the storage and logging a warning, without any request. \<^verbatim>\<open>startHeartbeat\<close> does
  what \<^verbatim>\<open>ensureBaseUrl\<close> does, then reads the storage, logs a warning and returns without
  installing a timer: it sends no request when the base URL is already resolved, and
  otherwise between one and three requests, all to the configuration endpoint.
\<close>

theorem no_token_skips:
  assumes "\<not> truthy (token_store s)"
  shows "fst (reportTestResult e node latency s) = Inr () \<and>
    issued s (snd (reportTestResult e node latency s)) =
      [StorageGet ''token'', Console LWarn ''No token found. Skipping result reporting.''] \<and>
    nfetch (snd (reportTestResult e node latency s)) = nfetch s \<and>
    issued s (startHeartbeat e s) =
      issued s (ensureBaseUrl e s) @
        [StorageGet ''token'', Console LWarn ''No token found. Skipping heartbeat.''] \<and>
    timers (startHeartbeat e s) = timers s \<and>
    (truthy (baseUrl s) \<longrightarrow> fetches (issued s (startHeartbeat e s)) = []) \<and>
    (\<exists>n\<le>3. fetches (issued s (startHeartbeat e s)) = replicate n (Fetch config_url no_options) \<and>
            (\<not> truthy (baseUrl s) \<longrightarrow> 1 \<le> n))"
proof -
  have r: "fst (reportTestResult e node latency s) = Inr ()"
    "issued s (snd (reportTestResult e node latency s)) =
      [StorageGet ''token'', Console LWarn ''No token found. Skipping result reporting.'']"
    "nfetch (snd (reportTestResult e node latency s)) = nfetch s"
    using assms by (simp_all add: reportTestResult_no_token issued_def console_def emit_def)
  have h1: "issued s (startHeartbeat e s) =
      issued s (ensureBaseUrl e s) @
        [StorageGet ''token'', Console LWarn ''No token found. Skipping heartbeat.'']"
    by (rule issued_startHeartbeat_no_token[OF assms])
  have h2: "timers (startHeartbeat e s) = timers s"
    using assms by (simp add: startHeartbeat_no_token)
  have f: "fetches (issued s (startHeartbeat e s)) = fetches (issued s (ensureBaseUrl e s))"
    unfolding h1 by (simp add: fetches_append fetches_Cons fetches_Nil)
  have h3: "truthy (baseUrl s) \<longrightarrow> fetches (issued s (startHeartbeat e s)) = []"
    unfolding f by (simp add: fetches_issued_ensureBaseUrl)
  let ?n = "length (fetches (issued s (ensureBaseUrl e s)))"
  have h4: "?n \<le> 3 \<and> fetches (issued s (startHeartbeat e s)) = replicate ?n (Fetch config_url no_options) \<and>
      (\<not> truthy (baseUrl s) \<longrightarrow> 1 \<le> ?n)"
  proof (cases "truthy (baseUrl s)")
    case True
    then show ?thesis unfolding f by (simp add: fetches_issued_ensureBaseUrl)
  next
    case False
    then show ?thesis
      unfolding f
      using fetches_issued_fetchWithRetry[of s e config_url no_options 3 1000]
        fetchWithRetry_bounds(1)[of s e config_url no_options 3 1000]
        fetchWithRetry_at_least_one[of 3 s e config_url no_options 1000]
      by (simp add: fetches_issued_ensureBaseUrl)
  qed
  show ?thesis using r h1 h2 h3 h4 by blast
qed

theorem no_token_skips_witness:
  "fst (reportTestResult env_down (Obj []) (- 1) (loaded Undefined 0)) = Inr () \<and>
   nfetch (snd (reportTestResult env_down (Obj []) (- 1) (loaded Undefined 0))) = 0 \<and>
   timers (startHeartbeat env_down (loaded Undefined 0)) = [(refresh_period, RefreshTick)]"
  using no_token_skips[where s="loaded Undefined 0" and e=env_down and node="Obj []" and latency="- 1"]
  by (simp add: loaded_def)


section \<open>Latency test and report\<close>

lemma get_prop_Obj: "get_prop (Obj kvs) k = Inr (field kvs k)"
  by (simp add: field_def)

lemma race_timeout_never: "race_timeout None timeout = (timeout, Rejected (Error ''Timeout''))"
  by (simp add: race_timeout_def)

lemma race_timeout_early: "t < timeout \<Longrightarrow> race_timeout (Some (t, r)) timeout = (t, r)"
  by (simp add: race_timeout_def)

lemma node_url_Obj:
  "node_url e (Obj kvs) =
     (case to_str e (field kvs ''ip'') of Inl err \<Rightarrow> Inl err | Inr i \<Rightarrow> Inr (''http://'' @ i))"
  by (simp add: node_url_def field_def)

lemma node_msg_Obj:
  "node_msg e (Obj kvs) before after =
     (case to_str e (field kvs ''node_id'') of
        Inl err \<Rightarrow> Inl err
      | Inr n \<Rightarrow> Inr (before @ n @ after))"
  by (simp add: node_msg_def field_def)

lemma testNodeLatency_catch_Obj:
  "testNodeLatency_catch e (Obj kvs) s =
     (case to_str e (field kvs ''node_id'') of
        Inl err \<Rightarrow> (Inl err, s)
      | Inr n \<Rightarrow> (Inr (- 1), console LError (''Node '' @ n @ '' latency test failed:'') s))"
  by (simp add: testNodeLatency_catch_def node_msg_Obj split: sum.splits)

lemma testNodeLatency_Obj:
  assumes "to_str e (field kvs ''ip'') = Inr ip"
  shows "testNodeLatency e (Obj kvs) s =
     (let url = ''http://'' @ ip;
          opts = \<lparr>http_method = None, headers = [], body = None, mode = Some ''no-cors''\<rparr>;
          tr = race_timeout (probe e (nfetch s) url opts) 5000;
          s2 = s\<lparr>nfetch := Suc (nfetch s),
                 trace := trace s @ [Fetch url opts, SetTimeout 5000], now := now s + fst tr\<rparr>
      in case snd tr of
           Fulfilled resp \<Rightarrow> (Inr (int (fst tr)), s2)
         | Rejected err \<Rightarrow> testNodeLatency_catch e (Obj kvs) s2)"
  by (simp add: testNodeLatency_def node_url_Obj assms Let_def start_fetch_def emit_def
      timeout_ms_def split_beta split: settled.splits)

text \<open>A node whose \<^verbatim>\<open>ip\<close> has no string form: the template literal throws inside the
  \<^verbatim>\<open>try\<close>, so no request is made and no timer set, and the \<^verbatim>\<open>catch\<close> block answers at
  once.\<close>

lemma testNodeLatency_bad_ip:
  assumes "to_str e (field kvs ''ip'') = Inl err"
  shows "testNodeLatency e (Obj kvs) s = testNodeLatency_catch e (Obj kvs) s"
    and "nfetch (snd (testNodeLatency e (Obj kvs) s)) = nfetch s"
    and "now (snd (testNodeLatency e (Obj kvs) s)) = now s"
  by (simp_all add: testNodeLatency_def node_url_Obj assms Let_def testNodeLatency_catch_Obj
      split: sum.splits)

lemma testNodeLatency_issued:
  assumes "to_str e (field kvs ''ip'') = Inr ip"
  shows "issued s (snd (testNodeLatency e (Obj kvs) s)) =
       [Fetch (''http://'' @ ip)
          \<lparr>http_method = None, headers = [], body = None, mode = Some ''no-cors''\<rparr>,
        SetTimeout 5000] \<or>
     (\<exists>m. issued s (snd (testNodeLatency e (Obj kvs) s)) =
       [Fetch (''http://'' @ ip)
          \<lparr>http_method = None, headers = [], body = None, mode = Some ''no-cors''\<rparr>,
        SetTimeout 5000, Console LError m])"
  unfolding testNodeLatency_Obj[OF assms] Let_def
  by (simp add: issued_def testNodeLatency_catch_Obj console_def emit_def
      split: settled.splits sum.splits)

lemma testNodeLatency_fetches:
  assumes "to_str e (field kvs ''ip'') = Inr ip"
  shows "fetches (issued s (snd (testNodeLatency e (Obj kvs) s))) =
       [Fetch (''http://'' @ ip)
          \<lparr>http_method = None, headers = [], body = None, mode = Some ''no-cors''\<rparr>]"
  using testNodeLatency_issued[OF assms, of s] by (auto simp add: fetches_Cons fetches_Nil)

lemma testNodeLatency_nfetch:
  assumes "to_str e (field kvs ''ip'') = Inr ip"
  shows "nfetch (snd (testNodeLatency e (Obj kvs) s)) = nfetch s + 1"
  unfolding testNodeLatency_Obj[OF assms] Let_def
  by (simp add: testNodeLatency_catch_Obj console_def emit_def split: settled.splits sum.splits)

lemma testNodeLatency_fulfilled:
  assumes "to_str e (field kvs ''ip'') = Inr ip"
    and "probe e (nfetch s) (''http://'' @ ip)
           \<lparr>http_method = None, headers = [], body = None, mode = Some ''no-cors''\<rparr>
         = Some (t, Fulfilled resp)"
    and "t < 5000"
  shows "fst (testNodeLatency e (Obj kvs) s) = Inr (int t)"
    and "now (snd (testNodeLatency e (Obj kvs) s)) = now s + t"
  unfolding testNodeLatency_Obj[OF assms(1)] Let_def
  using assms(2) by (simp_all add: race_timeout_early[OF assms(3)])

lemma testNodeLatency_never:
  assumes "to_str e (field kvs ''ip'') = Inr ip"
    and "probe e (nfetch s) (''http://'' @ ip)
           \<lparr>http_method = None, headers = [], body = None, mode = Some ''no-cors''\<rparr> = None"
  shows "now (snd (testNodeLatency e (Obj kvs) s)) = now s + 5000"
    and "to_str e (field kvs ''node_id'') = Inr n \<Longrightarrow> fst (testNodeLatency e (Obj kvs) s) = Inr (- 1)"
  unfolding testNodeLatency_Obj[OF assms(1)] Let_def
  using assms(2)
  by (simp_all add: race_timeout_never testNodeLatency_catch_Obj console_def emit_def
      split: sum.splits)

text \<open>
  Claim C7. A latency test of a node object whose \<^verbatim>\<open>ip\<close> has a string form makes exactly
  one request (the probe, to \<^verbatim>\<open>http://<ip>\<close> with \<^verbatim>\<open>no-cors\<close>) and sets one timer, of
  5000 ms. When the probe is fulfilled \<open>t\<close> ms after the call, with \<open>t < 5000\<close>, the test
  returns \<open>t\<close> at that moment; when the probe never settles, the clock reads the start time
  plus 5000 ms when the test ends, and the test returns \<open>-1\<close> (its log message needs the
  string form of \<^verbatim>\<open>node_id\<close>).
\<close>

theorem testNodeLatency_single_probe:
  assumes "to_str e (field kvs ''ip'') = Inr ip"
  shows "let url = ''http://'' @ ip;
       opts = \<lparr>http_method = None, headers = [], body = None, mode = Some ''no-cors''\<rparr>;
       res = testNodeLatency e (Obj kvs) s
   in fetches (issued s (snd res)) = [Fetch url opts] \<and>
      nfetch (snd res) = nfetch s + 1 \<and>
      filter (\<lambda>ev. \<exists>d. ev = SetTimeout d) (issued s (snd res)) = [SetTimeout 5000] \<and>
      (\<forall>t resp. probe e (nfetch s) url opts = Some (t, Fulfilled resp) \<and> t < 5000 \<longrightarrow>
         fst res = Inr (int t) \<and> now (snd res) = now s + t) \<and>
      (probe e (nfetch s) url opts = None \<longrightarrow>
         now (snd res) = now s + 5000 \<and>
         (\<forall>n. to_str e (field kvs ''node_id'') = Inr n \<longrightarrow> fst res = Inr (- 1)))"
proof -
  have 3: "filter (\<lambda>ev. \<exists>d. ev = SetTimeout d) (issued s (snd (testNodeLatency e (Obj kvs) s)))
      = [SetTimeout 5000]"
    using testNodeLatency_issued[OF assms, of s] by auto
  show ?thesis
    unfolding Let_def
    using testNodeLatency_fetches[OF assms, of s] testNodeLatency_nfetch[OF assms, of s] 3
      testNodeLatency_fulfilled[OF assms, of s] testNodeLatency_never[OF assms, of s]
    by blast
qed

theorem testNodeLatency_single_probe_witness:
  "fst (testNodeLatency (env_probe (Some (42, Fulfilled (response_status 200)))) node_a (loaded Undefined 7))
     = Inr 42 \<and>
   fst (testNodeLatency (env_probe None) node_a (loaded Undefined 7)) = Inr (- 1) \<and>
   now (snd (testNodeLatency (env_probe None) node_a (loaded Undefined 7))) = 5007"
proof -
  let ?s = "loaded Undefined 7"
  let ?opts = "\<lparr>http_method = None, headers = [], body = None, mode = Some ''no-cors''\<rparr>"
  let ?kvs = "[(''node_id'', Str ''a''), (''ip'', Str ''10.0.0.1'')]"
  have ip: "to_str e (field ?kvs ''ip'') = Inr ''10.0.0.1''" for e
    by (simp add: to_str_def field_def)
  have nid: "to_str e (field ?kvs ''node_id'') = Inr ''a''" for e
    by (simp add: to_str_def field_def)
  note A = testNodeLatency_single_probe[OF ip, where e="env_probe (Some (42, Fulfilled (response_status 200)))"
      and s="?s"]
  note B = testNodeLatency_single_probe[OF ip, where e="env_probe None" and s="?s"]
  have a: "probe (env_probe (Some (42, Fulfilled (response_status 200)))) (nfetch ?s) (''http://'' @ ''10.0.0.1'') ?opts
      = Some (42, Fulfilled (response_status 200)) \<and> (42::nat) < 5000"
    by (simp add: env_probe_def)
  have b: "probe (env_probe None) (nfetch ?s) (''http://'' @ ''10.0.0.1'') ?opts = None"
    by (simp add: env_probe_def)
  have 1: "fst (testNodeLatency (env_probe (Some (42, Fulfilled (response_status 200)))) node_a ?s) = Inr 42"
    using A a unfolding Let_def node_a_def by simp
  have 2: "fst (testNodeLatency (env_probe None) node_a ?s) = Inr (- 1) \<and>
      now (snd (testNodeLatency (env_probe None) node_a ?s)) = 5007"
    using B b nid[of "env_probe None"] unfolding Let_def node_a_def by (simp add: loaded_def)
  show ?thesis using 1 2 by simp
qed

lemma report_request_Obj:
  assumes "to_str e base = Inr b" "to_str e token = Inr tk"
  shows "report_request e base token (Obj kvs) latency =
     Inr (b @ ''/api/test'',
          \<lparr>http_method = Some ''POST'',
           headers = [(''Content-Type'', ''application/json''), (''Authorization'', ''Bearer '' @ tk)],
           body = Some (Obj [(''node_id'', field kvs ''node_id''), (''ip'', field kvs ''ip''),
                             (''latency'', Num latency),
                             (''status'', Str (if 0 < latency then ''online'' else ''offline''))]),
           mode = None\<rparr>)"
  by (simp add: report_request_def assms report_body_def field_def)

lemma reportTestResult_catch_Obj:
  "reportTestResult_catch e (Obj kvs) s =
     (case to_str e (field kvs ''node_id'') of
        Inl err \<Rightarrow> (Inl err, s)
      | Inr n \<Rightarrow> (Inr (), console LError (''Error reporting result for node '' @ n @ '':'') s))"
  by (simp add: reportTestResult_catch_def node_msg_Obj split: sum.splits)

lemma reportTestResult_trace:
  assumes "truthy (token_store s)" "report_request e (baseUrl s) (token_store s) node latency = Inr (url, opts)"
  shows "\<exists>evs. trace (snd (reportTestResult e node latency s)) =
            trace s @ [StorageGet ''token'', Fetch url opts] @ evs \<and> fetches evs = []"
proof -
  define s1 where "s1 = emit (StorageGet ''token'') s"
  obtain res s2 where f: "await_fetch e url opts s1 = (res, s2)"
    by (cases "await_fetch e url opts s1")
  have tr2: "trace s2 = trace s @ [StorageGet ''token'', Fetch url opts]"
    using f by (auto simp add: await_fetch_def s1_def emit_def)
  have c: "\<exists>evs. trace (snd (reportTestResult_catch e node s2)) = trace s2 @ evs \<and> fetches evs = []"
    by (cases "node_msg e node ''Error reporting result for node '' '':''")
       (simp_all add: reportTestResult_catch_def console_def emit_def fetches_Cons fetches_Nil)
  have m: "\<exists>evs. trace (snd (case node_msg e node before after of
                  Inl err \<Rightarrow> reportTestResult_catch e node s2
                | Inr msg \<Rightarrow> (Inr (), console l msg s2))) = trace s2 @ evs \<and> fetches evs = []"
    for before after l
    using c by (cases "node_msg e node before after")
       (simp_all add: console_def emit_def fetches_Cons fetches_Nil)
  have unf: "reportTestResult e node latency s =
      (case res of
         Rejected err \<Rightarrow> reportTestResult_catch e node s2
       | Fulfilled r \<Rightarrow>
           if ok r then
             (case node_msg e node ''Reported result for node '' ''.'' of
                Inl err \<Rightarrow> reportTestResult_catch e node s2
              | Inr msg \<Rightarrow> (Inr (), console LLog msg s2))
           else
             (case node_msg e node ''Failed to report result for node '' '':'' of
                Inl err \<Rightarrow> reportTestResult_catch e node s2
              | Inr msg \<Rightarrow> (Inr (), console LError msg s2)))"
    using assms(1) f[unfolded s1_def]
    by (simp add: reportTestResult_def getToken_def assms(2))
  have "\<exists>evs. trace (snd (reportTestResult e node latency s)) = trace s2 @ evs \<and> fetches evs = []"
    unfolding unf
  proof (cases res)
    case (Rejected err)
    then show "\<exists>evs. trace (snd (case res of
         Rejected err \<Rightarrow> reportTestResult_catch e node s2
       | Fulfilled r \<Rightarrow>
           if ok r then
             (case node_msg e node ''Reported result for node '' ''.'' of
                Inl err \<Rightarrow> reportTestResult_catch e node s2
              | Inr msg \<Rightarrow> (Inr (), console LLog msg s2))
           else
             (case node_msg e node ''Failed to report result for node '' '':'' of
                Inl err \<Rightarrow> reportTestResult_catch e node s2
              | Inr msg \<Rightarrow> (Inr (), console LError msg s2)))) = trace s2 @ evs \<and> fetches evs = []"
      using c by simp
  next
    case (Fulfilled r)
    then show "\<exists>evs. trace (snd (case res of
         Rejected err \<Rightarrow> reportTestResult_catch e node s2
       | Fulfilled r \<Rightarrow>
           if ok r then
             (case node_msg e node ''Reported result for node '' ''.'' of
                Inl err \<Rightarrow> reportTestResult_catch e node s2
              | Inr msg \<Rightarrow> (Inr (), console LLog msg s2))
           else
             (case node_msg e node ''Failed to report result for node '' '':'' of
                Inl err \<Rightarrow> reportTestResult_catch e node s2
              | Inr msg \<Rightarrow> (Inr (), console LError msg s2)))) = trace s2 @ evs \<and> fetches evs = []"
      using m[where before="''Reported result for node ''" and after="''.''" and l=LLog]
        m[where before="''Failed to report result for node ''" and after="'':''" and l=LError]
      by (cases "ok r") simp_all
  qed
  then show ?thesis by (simp add: tr2)
qed

lemma fetches_reportTestResult:
  assumes "truthy (token_store s)" "to_str e (token_store s) = Inr tk" "to_str e (baseUrl s) = Inr b"
  shows "fetches (issued s (snd (reportTestResult e (Obj kvs) latency s))) =
      [Fetch (b @ ''/api/test'')
         \<lparr>http_method = Some ''POST'',
          headers = [(''Content-Type'', ''application/json''), (''Authorization'', ''Bearer '' @ tk)],
          body = Some (Obj [(''node_id'', field kvs ''node_id''), (''ip'', field kvs ''ip''),
                            (''latency'', Num latency),
                            (''status'', Str (if 0 < latency then ''online'' else ''offline''))]),
          mode = None\<rparr>]"
proof -
  define url where "url = b @ ''/api/test''"
  define opts where "opts = \<lparr>http_method = Some ''POST'',
          headers = [(''Content-Type'', ''application/json''), (''Authorization'', ''Bearer '' @ tk)],
          body = Some (Obj [(''node_id'', field kvs ''node_id''), (''ip'', field kvs ''ip''),
                            (''latency'', Num latency),
                            (''status'', Str (if 0 < latency then ''online'' else ''offline''))]),
          mode = None\<rparr>"
  have rq: "report_request e (baseUrl s) (token_store s) (Obj kvs) latency = Inr (url, opts)"
    unfolding url_def opts_def by (rule report_request_Obj[OF assms(3) assms(2)])
  obtain evs where "trace (snd (reportTestResult e (Obj kvs) latency s)) =
            trace s @ [StorageGet ''token'', Fetch url opts] @ evs" "fetches evs = []"
    using reportTestResult_trace[OF assms(1) rq] by blast
  then have "fetches (issued s (snd (reportTestResult e (Obj kvs) latency s))) = [Fetch url opts]"
    by (simp add: issued_def fetches_Cons fetches_append)
  then show ?thesis unfolding url_def opts_def .
qed

lemma fst_reportTestResult_Obj:
  assumes "truthy (token_store s)" "to_str e (token_store s) = Inr tk" "to_str e (baseUrl s) = Inr b"
    "to_str e (field kvs ''node_id'') = Inr n"
  shows "fst (reportTestResult e (Obj kvs) latency s) = Inr ()"
proof -
  obtain url opts where rq: "report_request e (baseUrl s) (token_store s) (Obj kvs) latency = Inr (url, opts)"
    using report_request_Obj[OF assms(3) assms(2), of kvs latency] by blast
  have m: "node_msg e (Obj kvs) before after = Inr (before @ n @ after)" for before after
    by (simp add: node_msg_Obj assms(4))
  show ?thesis
    using assms(1)
    by (simp add: reportTestResult_def getToken_def rq split_beta reportTestResult_catch_def m
        split: settled.splits)
qed

lemma latency_msg_Obj:
  assumes "to_str e (field kvs ''node_id'') = Inr n" "to_str e (field kvs ''ip'') = Inr ip"
  shows "latency_msg e (Obj kvs) latency =
     Inr (''Node '' @ n @ '' ('' @ ip @ '') latency: '' @ num_str e latency @ ''ms'')"
  by (simp add: latency_msg_def node_msg_Obj assms field_def[symmetric])

lemma node_loop_single:
  assumes tok: "truthy (token_store s)" and tk: "to_str e (token_store s) = Inr tk"
    and base: "to_str e (baseUrl s) = Inr b"
    and nid: "to_str e (field kvs ''node_id'') = Inr n"
    and ip: "to_str e (field kvs ''ip'') = Inr ip"
    and lat: "fst (testNodeLatency e (Obj kvs) s) = Inr latency"
  shows "fetches (issued s (snd (node_loop e [Obj kvs] s))) =
     [Fetch (''http://'' @ ip)
        \<lparr>http_method = None, headers = [], body = None, mode = Some ''no-cors''\<rparr>,
      Fetch (b @ ''/api/test'')
        \<lparr>http_method = Some ''POST'',
         headers = [(''Content-Type'', ''application/json''), (''Authorization'', ''Bearer '' @ tk)],
         body = Some (Obj [(''node_id'', field kvs ''node_id''), (''ip'', field kvs ''ip''),
                           (''latency'', Num latency),
                           (''status'', Str (if 0 < latency then ''online'' else ''offline''))]),
         mode = None\<rparr>]"
proof -
  define s1 where "s1 = snd (testNodeLatency e (Obj kvs) s)"
  define msg where "msg = ''Node '' @ n @ '' ('' @ ip @ '') latency: '' @ num_str e latency @ ''ms''"
  define s2 where "s2 = console LLog msg s1"
  define s3 where "s3 = snd (reportTestResult e (Obj kvs) latency s2)"
  have t: "testNodeLatency e (Obj kvs) s = (Inr latency, s1)"
    using lat by (simp add: s1_def prod_eq_iff)
  have a1: "advances s s1" unfolding s1_def by (rule advances_testNodeLatency[OF advances_refl])
  have a2: "advances s s2" unfolding s2_def by (rule advances_console[OF a1])
  have f2: "token_store s2 = token_store s" "baseUrl s2 = baseUrl s"
    using advances_fields[OF a2] by simp_all
  have tok2: "truthy (token_store s2)" "to_str e (token_store s2) = Inr tk" "to_str e (baseUrl s2) = Inr b"
    using tok tk base by (simp_all add: f2)
  have r: "reportTestResult e (Obj kvs) latency s2 = (Inr (), s3)"
    using fst_reportTestResult_Obj[OF tok2 nid, of latency] by (simp add: s3_def prod_eq_iff)
  have nl: "node_loop e [Obj kvs] s = (Inr (), s3)"
    using r[unfolded s2_def msg_def] by (simp add: t latency_msg_Obj[OF nid ip])
  have p1: "prefix (trace s) (trace s1)" by (rule advances_prefix[OF a1])
  have p2: "prefix (trace s) (trace s2)" by (rule advances_prefix[OF a2])
  have p3: "prefix (trace s2) (trace s3)"
    unfolding s3_def by (rule advances_prefix[OF advances_reportTestResult[OF advances_refl]])
  have i2: "issued s s2 = issued s s1 @ [Console LLog msg]"
    unfolding s2_def by (rule issued_console[OF p1])
  have f1: "fetches (issued s s1) = [Fetch (''http://'' @ ip)
        \<lparr>http_method = None, headers = [], body = None, mode = Some ''no-cors''\<rparr>]"
    unfolding s1_def by (rule testNodeLatency_fetches[OF ip])
  have f3: "fetches (issued s2 s3) = [Fetch (b @ ''/api/test'')
        \<lparr>http_method = Some ''POST'',
         headers = [(''Content-Type'', ''application/json''), (''Authorization'', ''Bearer '' @ tk)],
         body = Some (Obj [(''node_id'', field kvs ''node_id''), (''ip'', field kvs ''ip''),
                           (''latency'', Num latency),
                           (''status'', Str (if 0 < latency then ''online'' else ''offline''))]),
         mode = None\<rparr>]"
    unfolding s3_def by (rule fetches_reportTestResult[OF tok2])
  show ?thesis
    unfolding nl snd_conv issued_trans[OF p2 p3] i2 fetches_append f1 f3
    by (simp add: fetches_Cons fetches_Nil)
qed



section \<open>Rewards check\<close>

lemma filter_concat_failures:
  assumes "\<And>u opts. \<not> P (Fetch u opts)" "\<And>l m. \<not> P (Console l m)" "\<And>d. \<not> P (SetTimeout d)"
  shows "filter P (concat (map (\<lambda>i. [Fetch url opts, Console LError (attempt_failed_msg i), SetTimeout delay]) xs)) = []"
  by (induction xs) (simp_all add: assms)

lemma filter_issued_fetchWithRetry:
  assumes "\<And>u opts. \<not> P (Fetch u opts)" "\<And>l m. \<not> P (Console l m)" "\<And>d. \<not> P (SetTimeout d)"
  shows "filter P (issued s (snd (fetchWithRetry e url opts retries delay s))) = []"
proof (cases rule: fetchWithRetry_cases[of retries e s url opts])
  case exhausted
  show ?thesis
    unfolding fetchWithRetry_exhausted(2)[OF exhausted]
    by (simp add: filter_concat_failures[of P, OF assms] assms del: filter_concat)
next
  case (success m r')
  show ?thesis
    unfolding fetchWithRetry_success(2)[OF success]
    by (simp add: filter_concat_failures[of P, OF assms] assms del: filter_concat)
qed

lemma filter_issued_fetchBaseUrl:
  assumes "\<And>u opts. \<not> P (Fetch u opts)" "\<And>l m. \<not> P (Console l m)" "\<And>d. \<not> P (SetTimeout d)"
  shows "filter P (issued s (snd (fetchBaseUrl e s))) = []"
  by (simp add: fetchBaseUrl_def split_beta issued_console prefix_fetchWithRetry
      filter_issued_fetchWithRetry[of P, OF assms] assms split: sum.splits)

lemma filter_issued_ensureBaseUrl:
  assumes "\<And>u opts. \<not> P (Fetch u opts)" "\<And>l m. \<not> P (Console l m)" "\<And>d. \<not> P (SetTimeout d)"
  shows "filter P (issued s (ensureBaseUrl e s)) = []"
proof (cases "truthy (baseUrl s)")
  case True
  then show ?thesis by (simp add: ensureBaseUrl_resolved)
next
  case False
  then show ?thesis
    by (simp add: issued_ensureBaseUrl filter_issued_fetchBaseUrl[of P, OF assms] assms)
qed

lemma rewards_request_ok:
  assumes "to_str e base = Inr b" "to_str e token = Inr tk"
  shows "rewards_request e base token =
     Inr (b @ ''/api/rewards'',
          \<lparr>http_method = None, headers = [(''Authorization'', ''Bearer '' @ tk)],
           body = None, mode = None\<rparr>)"
  by (simp add: rewards_request_def assms)

lemma checkForRewards_with_token:
  assumes "truthy (token_store s)"
    and "rewards_request e (baseUrl (ensureBaseUrl e s)) (token_store s) = Inr (url, opts)"
    and "reply e (ensureBaseUrl e s) url opts 0 = Fulfilled r" and "ok r"
  shows "checkForRewards e s =
    (let s3 = snd (await_fetch e url opts (emit (StorageGet ''token'') (ensureBaseUrl e s)))
     in case json r of
          Inl err \<Rightarrow> console LError ''Error checking for rewards:'' s3
        | Inr data \<Rightarrow>
            (case Object_keys data of
               Inl err \<Rightarrow> console LError ''Error checking for rewards:'' s3
             | Inr ks \<Rightarrow>
                 if length ks > 0 then
                   (case get_prop data ''link'' of
                      Inl err \<Rightarrow> console LError ''Error checking for rewards:'' s3
                    | Inr link \<Rightarrow>
                        (case to_str e link of
                           Inl err \<Rightarrow> console LError ''Error checking for rewards:'' s3
                         | Inr l \<Rightarrow>
                             showNotification (''Earn more rewards points! Visit: '' @ l) link s3))
                 else console LLog ''No rewards available at the moment.'' s3))"
proof -
  define s1 where "s1 = ensureBaseUrl e s"
  define s2 where "s2 = emit (StorageGet ''token'') s1"
  have g: "getToken s1 = (token_store s, s2)"
    using assms(1) by (simp add: getToken_def s1_def s2_def)
  have rq: "rewards_request e (baseUrl s2) (token_store s) = Inr (url, opts)"
    using assms(2) by (simp add: s2_def s1_def)
  have f: "fst (await_fetch e url opts s2) = Fulfilled r"
    using assms(3) by (simp add: await_fetch_def reply_def s2_def s1_def)
  define s3 where "s3 = snd (await_fetch e url opts s2)"
  have f': "await_fetch e url opts s2 = (Fulfilled r, s3)"
    using f by (simp add: prod_eq_iff s3_def)
  show ?thesis
    unfolding checkForRewards_def s1_def[symmetric] g Let_def s2_def[symmetric] s3_def[symmetric]
    using assms(1,4) by (simp add: rq f')
qed

text \<open>
  Claim C8. In a rewards check with a token stored (token and base URL having a string form)
  and an \<^verbatim>\<open>ok\<close> response to the rewards request: when the payload is \<^verbatim>\<open>{}\<close> no
  notification is created and no link is stored; when the payload is
  \<^verbatim>\<open>{link: "https://y"}\<close> exactly one notification is created, its message names
  \<^verbatim>\<open>https://y\<close>, and that link is stored under the notification's id.
\<close>

theorem rewards_notification:
  assumes "truthy (token_store s)"
    and "to_str e (token_store s) = Inr tk"
    and "to_str e (baseUrl (ensureBaseUrl e s)) = Inr b"
    and "reply e (ensureBaseUrl e s) (b @ ''/api/rewards'')
           \<lparr>http_method = None, headers = [(''Authorization'', ''Bearer '' @ tk)],
            body = None, mode = None\<rparr> 0 = Fulfilled r"
    and "ok r"
  shows "(json_body r = Some (Obj []) \<longrightarrow>
            filter is_NotificationCreate (issued s (checkForRewards e s)) = [] \<and>
            notificationLinks (checkForRewards e s) = notificationLinks s) \<and>
         (json_body r = Some (Obj [(''link'', Str ''https://y'')]) \<longrightarrow>
            filter is_NotificationCreate (issued s (checkForRewards e s)) =
              [NotificationCreate ''rewardsNotification'' ''Earn more rewards points! Visit: https://y''] \<and>
            notificationLinks (checkForRewards e s) =
              (notificationLinks s)(''rewardsNotification'' \<mapsto> Str ''https://y''))"
proof -
  define s1 where "s1 = ensureBaseUrl e s"
  define url where "url = b @ ''/api/rewards''"
  define opts where "opts = \<lparr>http_method = None,
                 headers = [(''Authorization'', ''Bearer '' @ tk)],
                 body = None, mode = None\<rparr>"
  define s3 where "s3 = snd (await_fetch e url opts (emit (StorageGet ''token'') s1))"
  have rq: "rewards_request e (baseUrl (ensureBaseUrl e s)) (token_store s) = Inr (url, opts)"
    unfolding url_def opts_def by (rule rewards_request_ok[OF assms(3) assms(2)])
  have rep: "reply e (ensureBaseUrl e s) url opts 0 = Fulfilled r"
    using assms(4) by (simp add: url_def opts_def)
  have pre: "prefix (trace s) (trace s1)" unfolding s1_def by (rule prefix_ensureBaseUrl)
  have tr3: "trace s3 = trace s1 @ [StorageGet ''token'', Fetch url opts]"
    by (simp add: s3_def await_fetch_def emit_def)
  have i3: "issued s s3 = issued s s1 @ [StorageGet ''token'', Fetch url opts]"
    using pre by (auto simp add: issued_def tr3 prefix_def)
  have n1: "filter is_NotificationCreate (issued s s1) = []"
    unfolding s1_def by (rule filter_issued_ensureBaseUrl) simp_all
  have n3: "filter is_NotificationCreate (issued s s3) = []"
    by (simp add: i3 n1)
  have pre3: "prefix (trace s) (trace s3)"
    using pre by (auto simp add: tr3 prefix_def)
  have l3: "notificationLinks s3 = notificationLinks s"
    by (simp add: s3_def await_fetch_def emit_def s1_def)
  note unf = checkForRewards_with_token[OF assms(1) rq rep assms(5), unfolded Let_def,
      folded s1_def, folded s3_def]
  have A: "filter is_NotificationCreate (issued s (checkForRewards e s)) = [] \<and>
            notificationLinks (checkForRewards e s) = notificationLinks s"
    if "json_body r = Some (Obj [])"
    unfolding unf using that
    by (simp add: json_def issued_console[OF pre3] n3 l3)
  have B: "filter is_NotificationCreate (issued s (checkForRewards e s)) =
              [NotificationCreate ''rewardsNotification'' ''Earn more rewards points! Visit: https://y''] \<and>
            notificationLinks (checkForRewards e s) =
              (notificationLinks s)(''rewardsNotification'' \<mapsto> Str ''https://y'')"
    if "json_body r = Some (Obj [(''link'', Str ''https://y'')])"
    unfolding unf using that
    by (simp add: json_def to_str_def showNotification_def issued_emit[OF pre3] n3 l3)
  show ?thesis using A B by blast
qed

theorem rewards_notification_witness:
  "filter is_NotificationCreate (issued ((loaded (Str ''tok'') 0)\<lparr>baseUrl := Str ''https://b''\<rparr>)
      (checkForRewards (env_json (Obj [])) ((loaded (Str ''tok'') 0)\<lparr>baseUrl := Str ''https://b''\<rparr>))) = [] \<and>
   filter is_NotificationCreate (issued ((loaded (Str ''tok'') 0)\<lparr>baseUrl := Str ''https://b''\<rparr>)
      (checkForRewards (env_json (Obj [(''link'', Str ''https://y'')]))
         ((loaded (Str ''tok'') 0)\<lparr>baseUrl := Str ''https://b''\<rparr>))) =
     [NotificationCreate ''rewardsNotification'' ''Earn more rewards points! Visit: https://y''] \<and>
   notificationLinks (checkForRewards (env_json (Obj [(''link'', Str ''https://y'')]))
       ((loaded (Str ''tok'') 0)\<lparr>baseUrl := Str ''https://b''\<rparr>))
     ''rewardsNotification'' = Some (Str ''https://y'')"
proof -
  let ?s = "(loaded (Str ''tok'') 0)\<lparr>baseUrl := Str ''https://b''\<rparr>"
  have tok: "truthy (token_store ?s)" by (simp add: loaded_def)
  have tk: "to_str e (token_store ?s) = Inr ''tok''" for e by (simp add: to_str_def loaded_def)
  have res: "ensureBaseUrl e ?s = ?s" for e by (rule ensureBaseUrl_resolved) simp
  have base: "to_str e (baseUrl (ensureBaseUrl e ?s)) = Inr ''https://b''" for e
    unfolding res by (simp add: to_str_def)
  have ok: "ok (response_ok v)" for v by (simp add: ok_def response_ok_def)
  have rep: "reply (env_json v) s' url opts 0 = Fulfilled (response_ok v)" for v s' url opts
    by (simp add: reply_def env_json_def)
  note A = rewards_notification[OF tok tk base rep[of "Obj []"] ok[of "Obj []"]]
  note B = rewards_notification[OF tok tk base rep[of "Obj [(''link'', Str ''https://y'')]"]
      ok[of "Obj [(''link'', Str ''https://y'')]"]]
  have 1: "filter is_NotificationCreate (issued ?s (checkForRewards (env_json (Obj [])) ?s)) = []"
    using A by (simp add: response_ok_def)
  have 2: "filter is_NotificationCreate (issued ?s
      (checkForRewards (env_json (Obj [(''link'', Str ''https://y'')])) ?s)) =
     [NotificationCreate ''rewardsNotification'' ''Earn more rewards points! Visit: https://y''] \<and>
   notificationLinks (checkForRewards (env_json (Obj [(''link'', Str ''https://y'')])) ?s)
     ''rewardsNotification'' = Some (Str ''https://y'')"
    using B by (simp add: response_ok_def)
  show ?thesis using 1 2 by simp
qed

section \<open>Heartbeat\<close>

lemma startHeartbeat_with_token:
  "truthy (token_store s) \<Longrightarrow>
   startHeartbeat e s =
     (emit (SetInterval heartbeat_period (HeartbeatTick (token_store s)))
        (emit (StorageGet ''token'') (ensureBaseUrl e s)))
       \<lparr>timers := timers s @ [(heartbeat_period, HeartbeatTick (token_store s))]\<rparr>"
  by (simp add: startHeartbeat_def getToken_def)

lemma issued_startHeartbeat_with_token:
  "truthy (token_store s) \<Longrightarrow>
   issued s (startHeartbeat e s) =
     issued s (ensureBaseUrl e s) @
       [StorageGet ''token'', SetInterval heartbeat_period (HeartbeatTick (token_store s))]"
  using prefix_ensureBaseUrl[of s e]
  by (auto simp add: startHeartbeat_with_token issued_def emit_def prefix_def)

lemma storage_reads_startHeartbeat:
  "filter is_StorageGet (issued s (startHeartbeat e s)) = [StorageGet ''token'']"
proof (cases "truthy (token_store s)")
  case True
  show ?thesis
    unfolding issued_startHeartbeat_with_token[OF True]
    by (simp add: filter_issued_ensureBaseUrl)
next
  case False
  show ?thesis
    unfolding issued_startHeartbeat_no_token[OF False]
    by (simp add: filter_issued_ensureBaseUrl)
qed

lemma console_ignores_store:
  "console l m (s\<lparr>token_store := v\<rparr>) = (console l m s)\<lparr>token_store := v\<rparr>"
  by (simp add: console_def emit_def)

lemma await_fetch_ignores_store:
  "await_fetch e url opts (s\<lparr>token_store := v\<rparr>) =
     (fst (await_fetch e url opts s), (snd (await_fetch e url opts s))\<lparr>token_store := v\<rparr>)"
  by (simp add: await_fetch_def emit_def)

lemma getGeoLocation_ignores_store:
  "getGeoLocation e (s\<lparr>token_store := v\<rparr>) =
     (fst (getGeoLocation e s), (snd (getGeoLocation e s))\<lparr>token_store := v\<rparr>)"
  unfolding getGeoLocation_def await_fetch_ignores_store
  by (simp add: split_beta console_ignores_store split: settled.splits sum.splits)

lemma heartbeat_tick_ignores_store:
  "heartbeat_tick e tok (s\<lparr>token_store := v\<rparr>) = (heartbeat_tick e tok s)\<lparr>token_store := v\<rparr>"
  unfolding heartbeat_tick_def getGeoLocation_ignores_store
  by (simp add: split_beta await_fetch_ignores_store console_ignores_store
      split: settled.splits sum.splits)

lemma getGeoLocation_trace:
  "\<exists>evs. trace (snd (getGeoLocation e s)) = trace s @ Fetch ''https://ipapi.co/json/'' no_options # evs \<and>
     fetches evs = [] \<and> filter is_StorageGet evs = []"
  by (simp add: getGeoLocation_def await_fetch_def console_def emit_def split_beta fetches_Cons fetches_Nil
      split: settled.splits sum.splits)

lemma heartbeat_request_ok:
  assumes "to_str e base = Inr b" "to_str e token = Inr tk"
  shows "heartbeat_request e base token g t =
     Inr (b @ ''/api/heartbeat'',
          \<lparr>http_method = Some ''POST'',
           headers = [(''Authorization'', ''Bearer '' @ tk), (''Content-Type'', ''application/json'')],
           body = Some (Obj [(''ip'', fst g), (''location'', snd g), (''timestamp'', Num (int t))]),
           mode = None\<rparr>)"
  by (simp add: heartbeat_request_def assms)

lemma heartbeat_request_fails:
  assumes "(\<exists>err. to_str e token = Inl err) \<or> (\<exists>err. to_str e base = Inl err)"
  shows "\<exists>err. heartbeat_request e base token g t = Inl err"
  using assms by (auto simp add: heartbeat_request_def split: sum.splits)

lemma heartbeat_tick_trace_sent:
  assumes "heartbeat_request e (baseUrl s) tok (fst (getGeoLocation e s)) (now (snd (getGeoLocation e s)))
      = Inr (url, opts)"
  shows "\<exists>evs evs'. trace (heartbeat_tick e tok s) =
      trace s @ Fetch ''https://ipapi.co/json/'' no_options # evs @ Fetch url opts # evs' \<and>
      fetches evs = [] \<and> filter is_StorageGet evs = [] \<and>
      fetches evs' = [] \<and> filter is_StorageGet evs' = []"
proof -
  obtain evs where g: "trace (snd (getGeoLocation e s)) = trace s @ Fetch ''https://ipapi.co/json/'' no_options # evs"
    "fetches evs = []" "filter is_StorageGet evs = []"
    using getGeoLocation_trace by blast
  have b: "baseUrl (snd (getGeoLocation e s)) = baseUrl s"
    by (rule advances_fields(1)[OF advances_getGeoLocation[OF advances_refl]])
  show ?thesis
    by (rule exI[of _ evs])
       (simp add: heartbeat_tick_def split_beta b assms await_fetch_def console_def emit_def g
          fetches_Cons fetches_Nil split: settled.splits)
qed

lemma heartbeat_tick_trace_not_sent:
  assumes "heartbeat_request e (baseUrl s) tok (fst (getGeoLocation e s)) (now (snd (getGeoLocation e s)))
      = Inl err"
  shows "\<exists>evs. trace (heartbeat_tick e tok s) =
      trace s @ Fetch ''https://ipapi.co/json/'' no_options # evs \<and>
      fetches evs = [] \<and> filter is_StorageGet evs = []"
proof -
  obtain evs where g: "trace (snd (getGeoLocation e s)) = trace s @ Fetch ''https://ipapi.co/json/'' no_options # evs"
    "fetches evs = []" "filter is_StorageGet evs = []"
    using getGeoLocation_trace by blast
  have b: "baseUrl (snd (getGeoLocation e s)) = baseUrl s"
    by (rule advances_fields(1)[OF advances_getGeoLocation[OF advances_refl]])
  show ?thesis
    by (simp add: heartbeat_tick_def split_beta b assms console_def emit_def g
          fetches_Cons fetches_Nil fetches_append)
qed

lemma heartbeat_tick_storage: "filter is_StorageGet (issued s (heartbeat_tick e tok s)) = []"
proof (cases "heartbeat_request e (baseUrl s) tok (fst (getGeoLocation e s)) (now (snd (getGeoLocation e s)))")
  case (Inl err)
  from heartbeat_tick_trace_not_sent[OF Inl] obtain evs where
    "trace (heartbeat_tick e tok s) = trace s @ Fetch ''https://ipapi.co/json/'' no_options # evs"
    "filter is_StorageGet evs = []" by blast
  then show ?thesis by (simp add: issued_def)
next
  case (Inr rq)
  obtain url opts where rq: "rq = (url, opts)" by (cases rq)
  from heartbeat_tick_trace_sent[OF Inr[unfolded rq]] obtain evs evs' where
    "trace (heartbeat_tick e tok s) =
      trace s @ Fetch ''https://ipapi.co/json/'' no_options # evs @ Fetch url opts # evs'"
    "filter is_StorageGet evs = []" "filter is_StorageGet evs' = []" by blast
  then show ?thesis by (simp add: issued_def)
qed

lemma heartbeat_tick_fetches:
  assumes "to_str e tok = Inr tk" "to_str e (baseUrl s) = Inr b"
  shows "fetches (issued s (heartbeat_tick e tok s)) =
     [Fetch ''https://ipapi.co/json/'' no_options,
      Fetch (b @ ''/api/heartbeat'')
        \<lparr>http_method = Some ''POST'',
         headers = [(''Authorization'', ''Bearer '' @ tk), (''Content-Type'', ''application/json'')],
         body = Some (Obj [(''ip'', fst (fst (getGeoLocation e s))),
                           (''location'', snd (fst (getGeoLocation e s))),
                           (''timestamp'', Num (int (now (snd (getGeoLocation e s)))))]),
         mode = None\<rparr>]"
proof -
  from heartbeat_tick_trace_sent[OF heartbeat_request_ok[OF assms(2) assms(1)]]
  obtain evs evs' where t: "trace (heartbeat_tick e tok s) =
      trace s @ Fetch ''https://ipapi.co/json/'' no_options # evs @
        Fetch (b @ ''/api/heartbeat'')
        \<lparr>http_method = Some ''POST'',
         headers = [(''Authorization'', ''Bearer '' @ tk), (''Content-Type'', ''application/json'')],
         body = Some (Obj [(''ip'', fst (fst (getGeoLocation e s))),
                           (''location'', snd (fst (getGeoLocation e s))),
                           (''timestamp'', Num (int (now (snd (getGeoLocation e s)))))]),
         mode = None\<rparr> # evs'"
    "fetches evs = []" "fetches evs' = []"
    by blast
  show ?thesis
    unfolding issued_def t(1) by (simp add: fetches_Cons fetches_append t(2,3))
qed

lemma heartbeat_tick_fetches_no_string:
  assumes "(\<exists>err. to_str e tok = Inl err) \<or> (\<exists>err. to_str e (baseUrl s) = Inl err)"
  shows "fetches (issued s (heartbeat_tick e tok s)) = [Fetch ''https://ipapi.co/json/'' no_options]"
proof -
  from heartbeat_request_fails[OF assms] obtain err where
    "heartbeat_request e (baseUrl s) tok (fst (getGeoLocation e s)) (now (snd (getGeoLocation e s)))
      = Inl err" by blast
  from heartbeat_tick_trace_not_sent[OF this] obtain evs where
    t: "trace (heartbeat_tick e tok s) = trace s @ Fetch ''https://ipapi.co/json/'' no_options # evs"
    "fetches evs = []" by blast
  show ?thesis
    unfolding issued_def t(1) by (simp add: fetches_Cons t(2))
qed

lemma advances_timers: "advances s s' \<Longrightarrow> timers s' = timers s"
  by (rule advances_fields)

lemma timers_showNotification [simp]: "timers (showNotification m l s) = timers s"
  by (simp add: showNotification_def)

lemma timers_runNodeTests: "timers (runNodeTests e s) = timers s"
proof -
  have "timers (runNodeTests e s) = timers (ensureBaseUrl e s)"
    by (auto simp add: runNodeTests_def Let_def split_beta simp del: timers_ensureBaseUrl
      split: sum.splits intro!: advances_timers adv)
  then show ?thesis by simp
qed

lemma timers_checkForRewards: "timers (checkForRewards e s) = timers s"
proof -
  have "timers (checkForRewards e s) = timers (ensureBaseUrl e s)"
    by (auto simp add: checkForRewards_def Let_def split_beta simp del: timers_ensureBaseUrl
      split: sum.splits settled.splits intro!: advances_timers adv)
  then show ?thesis by simp
qed

lemma timers_startHeartbeat: "prefix (timers s) (timers (startHeartbeat e s))"
  by (cases "truthy (token_store s)") (simp_all add: startHeartbeat_with_token startHeartbeat_no_token)

lemma timers_refresh_tick: "timers (refresh_tick e s) = timers s"
  using advances_fields(4)[OF advances_fetchBaseUrl[OF advances_refl, of s e]]
  by (simp add: refresh_tick_def split_beta)

lemma timers_fire: "prefix (timers s) (timers (fire e t s))"
proof (cases t)
  case Installed
  then show ?thesis by (simp add: timers_startHeartbeat)
next
  case (Alarm name)
  then show ?thesis by (simp add: onAlarm_def timers_runNodeTests timers_checkForRewards)
next
  case (Timer i)
  show ?thesis
  proof (cases "snd (timers s ! i)")
    case (HeartbeatTick token)
    then show ?thesis using Timer
      by (simp add: run_callback_def advances_timers[OF advances_heartbeat_tick[OF advances_refl]])
  next
    case RefreshTick
    then show ?thesis using Timer by (simp add: run_callback_def timers_refresh_tick)
  qed
next
  case (ButtonClicked i b)
  then show ?thesis by (simp add: onButtonClicked_def split: option.splits)
next
  case (StorageSet v)
  then show ?thesis by simp
qed

lemma timers_run: "prefix (timers s) (timers (run e ts s))"
proof (induction ts arbitrary: s)
  case Nil
  then show ?case by simp
next
  case (Cons t ts)
  have "prefix (timers s) (timers (fire e t s))" by (rule timers_fire)
  also have "prefix (timers (fire e t s)) (timers (run e ts (fire e t s)))" by (rule Cons.IH)
  finally show ?case by simp
qed

lemma installed_timer_fires_with_captured_token:
  assumes "truthy (token_store s)"
  shows "fire e (Timer (length (timers s))) (run e ts (startHeartbeat e s)) =
     heartbeat_tick e (token_store s) (run e ts (startHeartbeat e s))"
proof -
  let ?s1 = "startHeartbeat e s"
  let ?s2 = "run e ts ?s1"
  have t1: "timers ?s1 = timers s @ [(heartbeat_period, HeartbeatTick (token_store s))]"
    using assms by (simp add: startHeartbeat_with_token)
  obtain zs where zs: "timers ?s2 = timers ?s1 @ zs"
    using timers_run[of ?s1 e ts] by (auto simp add: prefix_def)
  have "timers ?s2 ! length (timers s) = (heartbeat_period, HeartbeatTick (token_store s))"
    by (simp add: zs t1 nth_append)
  moreover have "length (timers s) < length (timers ?s2)" by (simp add: zs t1)
  ultimately show ?thesis by (simp add: run_callback_def)
qed

text \<open>
  Claim C10. \<^verbatim>\<open>startHeartbeat\<close> reads the stored token once, after \<^verbatim>\<open>ensureBaseUrl\<close> and
  before it installs the timer of 21600000 ms (six hours). With no token at that moment it
  installs no timer. With a token it installs one timer, whose callback holds the token read;
  whatever happens afterwards, storage changes included, firing that timer runs the heartbeat
  with the captured token. The heartbeat never reads the storage and its behaviour does not
  depend on the stored token. When the captured token and the base URL have a string form,
  it makes the geolocation request and then one POST, which carries the captured token in
  the \<^verbatim>\<open>Authorization\<close> header; when one of them has none, the template literal throws and
  the geolocation request is the only one.
\<close>

theorem startHeartbeat_captures_token:
  "filter is_StorageGet (issued s (startHeartbeat e s)) = [StorageGet ''token''] \<and>
   heartbeat_period = 21600000 \<and>
   (\<not> truthy (token_store s) \<longrightarrow>
      timers (startHeartbeat e s) = timers s \<and>
      filter is_SetInterval (issued s (startHeartbeat e s)) = []) \<and>
   (truthy (token_store s) \<longrightarrow>
      issued s (startHeartbeat e s) =
        issued s (ensureBaseUrl e s) @
          [StorageGet ''token'', SetInterval heartbeat_period (HeartbeatTick (token_store s))] \<and>
      timers (startHeartbeat e s) = timers s @ [(heartbeat_period, HeartbeatTick (token_store s))] \<and>
      (\<forall>ts. fire e (Timer (length (timers s))) (run e ts (startHeartbeat e s)) =
            heartbeat_tick e (token_store s) (run e ts (startHeartbeat e s)))) \<and>
   (\<forall>v. heartbeat_tick e tok (s'\<lparr>token_store := v\<rparr>) = (heartbeat_tick e tok s')\<lparr>token_store := v\<rparr>) \<and>
   filter is_StorageGet (issued s' (heartbeat_tick e tok s')) = [] \<and>
   (\<forall>tk b. to_str e tok = Inr tk \<and> to_str e (baseUrl s') = Inr b \<longrightarrow>
      fetches (issued s' (heartbeat_tick e tok s')) =
        [Fetch ''https://ipapi.co/json/'' no_options,
         Fetch (b @ ''/api/heartbeat'')
           \<lparr>http_method = Some ''POST'',
            headers = [(''Authorization'', ''Bearer '' @ tk), (''Content-Type'', ''application/json'')],
            body = Some (Obj [(''ip'', fst (fst (getGeoLocation e s'))),
                              (''location'', snd (fst (getGeoLocation e s'))),
                              (''timestamp'', Num (int (now (snd (getGeoLocation e s')))))]),
            mode = None\<rparr>]) \<and>
   ((\<exists>err. to_str e tok = Inl err) \<or> (\<exists>err. to_str e (baseUrl s') = Inl err) \<longrightarrow>
      fetches (issued s' (heartbeat_tick e tok s')) = [Fetch ''https://ipapi.co/json/'' no_options])"
proof -
  have 1: "filter is_StorageGet (issued s (startHeartbeat e s)) = [StorageGet ''token'']"
    by (rule storage_reads_startHeartbeat)
  have 2: "heartbeat_period = 21600000" by (simp add: heartbeat_period_def)
  have 3: "\<not> truthy (token_store s) \<longrightarrow>
      timers (startHeartbeat e s) = timers s \<and>
      filter is_SetInterval (issued s (startHeartbeat e s)) = []"
  proof
    assume nt: "\<not> truthy (token_store s)"
    have a: "timers (startHeartbeat e s) = timers s"
      by (simp add: startHeartbeat_no_token[OF nt])
    have b: "filter is_SetInterval (issued s (startHeartbeat e s)) = []"
      unfolding issued_startHeartbeat_no_token[OF nt]
      by (simp add: filter_issued_ensureBaseUrl)
    show "timers (startHeartbeat e s) = timers s \<and>
      filter is_SetInterval (issued s (startHeartbeat e s)) = []"
      using a b by (rule conjI)
  qed
  have 4: "truthy (token_store s) \<longrightarrow>
      issued s (startHeartbeat e s) =
        issued s (ensureBaseUrl e s) @
          [StorageGet ''token'', SetInterval heartbeat_period (HeartbeatTick (token_store s))] \<and>
      timers (startHeartbeat e s) = timers s @ [(heartbeat_period, HeartbeatTick (token_store s))] \<and>
      (\<forall>ts. fire e (Timer (length (timers s))) (run e ts (startHeartbeat e s)) =
            heartbeat_tick e (token_store s) (run e ts (startHeartbeat e s)))"
  proof
    assume tk: "truthy (token_store s)"
    have a: "timers (startHeartbeat e s) = timers s @ [(heartbeat_period, HeartbeatTick (token_store s))]"
      by (simp add: startHeartbeat_with_token[OF tk])
    have b: "\<forall>ts. fire e (Timer (length (timers s))) (run e ts (startHeartbeat e s)) =
            heartbeat_tick e (token_store s) (run e ts (startHeartbeat e s))"
      using installed_timer_fires_with_captured_token[OF tk] by (intro allI)
    show "issued s (startHeartbeat e s) =
        issued s (ensureBaseUrl e s) @
          [StorageGet ''token'', SetInterval heartbeat_period (HeartbeatTick (token_store s))] \<and>
      timers (startHeartbeat e s) = timers s @ [(heartbeat_period, HeartbeatTick (token_store s))] \<and>
      (\<forall>ts. fire e (Timer (length (timers s))) (run e ts (startHeartbeat e s)) =
            heartbeat_tick e (token_store s) (run e ts (startHeartbeat e s)))"
      using issued_startHeartbeat_with_token[OF tk] a b by (intro conjI)
  qed
  have 5: "\<forall>v. heartbeat_tick e tok (s'\<lparr>token_store := v\<rparr>) = (heartbeat_tick e tok s')\<lparr>token_store := v\<rparr>"
    by (intro allI) (rule heartbeat_tick_ignores_store)
  have 6: "\<forall>tk b. to_str e tok = Inr tk \<and> to_str e (baseUrl s') = Inr b \<longrightarrow>
      fetches (issued s' (heartbeat_tick e tok s')) =
        [Fetch ''https://ipapi.co/json/'' no_options,
         Fetch (b @ ''/api/heartbeat'')
           \<lparr>http_method = Some ''POST'',
            headers = [(''Authorization'', ''Bearer '' @ tk), (''Content-Type'', ''application/json'')],
            body = Some (Obj [(''ip'', fst (fst (getGeoLocation e s'))),
                              (''location'', snd (fst (getGeoLocation e s'))),
                              (''timestamp'', Num (int (now (snd (getGeoLocation e s')))))]),
            mode = None\<rparr>]"
    using heartbeat_tick_fetches[of e tok _ s'] by (intro allI impI) (elim conjE)
  have 7: "(\<exists>err. to_str e tok = Inl err) \<or> (\<exists>err. to_str e (baseUrl s') = Inl err) \<longrightarrow>
      fetches (issued s' (heartbeat_tick e tok s')) = [Fetch ''https://ipapi.co/json/'' no_options]"
    by (intro impI) (rule heartbeat_tick_fetches_no_string)
  show ?thesis
    by (intro conjI) (rule 1 2 3 4 5 6 7 heartbeat_tick_storage)+
qed

theorem startHeartbeat_captures_token_witness:
  "timers (startHeartbeat env_down (loaded (Str ''tok'') 0)) =
     [(refresh_period, RefreshTick), (heartbeat_period, HeartbeatTick (Str ''tok''))] \<and>
   fire env_down (Timer 1)
     (run env_down [StorageSet Undefined] (startHeartbeat env_down (loaded (Str ''tok'') 0))) =
   heartbeat_tick env_down (Str ''tok'')
     (run env_down [StorageSet Undefined] (startHeartbeat env_down (loaded (Str ''tok'') 0))) \<and>
   timers (startHeartbeat env_down (loaded Undefined 0)) = [(refresh_period, RefreshTick)] \<and>
   fetches (issued ((loaded Undefined 0)\<lparr>baseUrl := Str ''https://b''\<rparr>)
      (heartbeat_tick env_down (Str ''tok'') ((loaded Undefined 0)\<lparr>baseUrl := Str ''https://b''\<rparr>))) =
     [Fetch ''https://ipapi.co/json/'' no_options,
      Fetch ''https://b/api/heartbeat''
        \<lparr>http_method = Some ''POST'',
         headers = [(''Authorization'', ''Bearer tok''), (''Content-Type'', ''application/json'')],
         body = Some (Obj [(''ip'', Str ''0.0.0.0''), (''location'', Str ''Unknown Location''),
                           (''timestamp'', Num 0)]),
         mode = None\<rparr>] \<and>
   fetches (issued ((loaded Undefined 0)\<lparr>baseUrl := Str ''https://b''\<rparr>)
      (heartbeat_tick env_down (Obj [(''toString'', Num 1)])
         ((loaded Undefined 0)\<lparr>baseUrl := Str ''https://b''\<rparr>))) =
     [Fetch ''https://ipapi.co/json/'' no_options]"
proof -
  let ?s' = "(loaded Undefined 0)\<lparr>baseUrl := Str ''https://b''\<rparr>"
  note A = startHeartbeat_captures_token[where s="loaded (Str ''tok'') 0" and e=env_down
      and s'="?s'" and tok="Str ''tok''"]
  note B = startHeartbeat_captures_token[where s="loaded Undefined 0" and e=env_down
      and s'="?s'" and tok="Obj [(''toString'', Num 1)]"]
  have tk: "truthy (token_store (loaded (Str ''tok'') 0))" by (simp add: loaded_def)
  have nt: "\<not> truthy (token_store (loaded Undefined 0))" by (simp add: loaded_def)
  have 1: "timers (startHeartbeat env_down (loaded (Str ''tok'') 0)) =
     [(refresh_period, RefreshTick), (heartbeat_period, HeartbeatTick (Str ''tok''))]"
    using A tk by (simp add: loaded_def)
  have len: "length (timers (loaded (Str ''tok'') 0)) = 1"
    and ts: "token_store (loaded (Str ''tok'') 0) = Str ''tok''"
    by (simp_all add: loaded_def)
  have "\<forall>ts. fire env_down (Timer (length (timers (loaded (Str ''tok'') 0))))
        (run env_down ts (startHeartbeat env_down (loaded (Str ''tok'') 0))) =
      heartbeat_tick env_down (token_store (loaded (Str ''tok'') 0))
        (run env_down ts (startHeartbeat env_down (loaded (Str ''tok'') 0)))"
    using A tk by blast
  then have 2: "fire env_down (Timer 1)
     (run env_down [StorageSet Undefined] (startHeartbeat env_down (loaded (Str ''tok'') 0))) =
   heartbeat_tick env_down (Str ''tok'')
     (run env_down [StorageSet Undefined] (startHeartbeat env_down (loaded (Str ''tok'') 0)))"
    unfolding len ts by (rule spec)
  have 3: "timers (startHeartbeat env_down (loaded Undefined 0)) = [(refresh_period, RefreshTick)]"
    using B nt by (simp add: loaded_def)
  have g: "fst (getGeoLocation env_down ?s') = (Str ''0.0.0.0'', Str ''Unknown Location'')"
    "now (snd (getGeoLocation env_down ?s')) = 0"
    by (simp_all add: getGeoLocation_def await_fetch_def env_down_def unknown_geo_def loaded_def)
  have h: "to_str env_down (Str ''tok'') = Inr ''tok'' \<and> to_str env_down (baseUrl ?s') = Inr ''https://b''"
    by (simp add: to_str_def)
  have "fetches (issued ?s' (heartbeat_tick env_down (Str ''tok'') ?s')) =
        [Fetch ''https://ipapi.co/json/'' no_options,
         Fetch (''https://b'' @ ''/api/heartbeat'')
           \<lparr>http_method = Some ''POST'',
            headers = [(''Authorization'', ''Bearer '' @ ''tok''), (''Content-Type'', ''application/json'')],
            body = Some (Obj [(''ip'', fst (fst (getGeoLocation env_down ?s'))),
                              (''location'', snd (fst (getGeoLocation env_down ?s'))),
                              (''timestamp'', Num (int (now (snd (getGeoLocation env_down ?s')))))]),
            mode = None\<rparr>]"
    using A h by blast
  then have 4: "fetches (issued ?s' (heartbeat_tick env_down (Str ''tok'') ?s')) =
     [Fetch ''https://ipapi.co/json/'' no_options,
      Fetch ''https://b/api/heartbeat''
        \<lparr>http_method = Some ''POST'',
         headers = [(''Authorization'', ''Bearer tok''), (''Content-Type'', ''application/json'')],
         body = Some (Obj [(''ip'', Str ''0.0.0.0''), (''location'', Str ''Unknown Location''),
                           (''timestamp'', Num 0)]),
         mode = None\<rparr>]"
    unfolding g by simp
  have bad: "\<exists>err. to_str env_down (Obj [(''toString'', Num 1)]) = Inl err"
    by (simp add: to_str_def)
  have 5: "fetches (issued ?s' (heartbeat_tick env_down (Obj [(''toString'', Num 1)]) ?s')) =
     [Fetch ''https://ipapi.co/json/'' no_options]"
    using B bad by blast
  show ?thesis using 1 2 3 4 5 by (intro conjI)
qed

end
